theory Spec2Isabelle
  imports Main
begin

section \<open>Data model (types/gtfs.ts)\<close>

text \<open>
  The row types of the four GTFS tables, as the interfaces of \<^verbatim>\<open>types/gtfs.ts\<close> declare
  them. Optional fields are options. Several interfaces share field names
  (\<^verbatim>\<open>service_id\<close>, \<^verbatim>\<open>route_id\<close>); a selector of an earlier record is written with the
  record's name in front, as in \<open>GTFSCalendar.service_id\<close>.
\<close>

record GTFSCalendar =
  service_id :: string
  monday :: bool
  tuesday :: bool
  wednesday :: bool
  thursday :: bool
  friday :: bool
  saturday :: bool
  sunday :: bool
  start_date :: string
  end_date :: string

text \<open>The literal type \<^verbatim>\<open>1 | 2\<close> of \<^verbatim>\<open>exception_type\<close>: 1 is \<open>Added\<close>, 2 is \<open>Removed\<close>.\<close>

datatype ExceptionType = Added | Removed

record GTFSCalendarDate =
  service_id :: string
  date :: string
  exception_type :: ExceptionType

record GTFSTrip =
  route_id :: string
  service_id :: string
  trip_id :: string
  trip_headsign :: "string option"
  trip_short_name :: "string option"
  direction_id :: "nat option"
  block_id :: "string option"
  shape_id :: "string option"
  wheelchair_accessible :: "nat option"
  bikes_allowed :: "nat option"

record GTFSRoute =
  route_id :: string
  agency_id :: "string option"
  route_short_name :: "string option"
  route_long_name :: "string option"
  route_desc :: "string option"
  route_type :: int
  route_url :: "string option"
  route_color :: "string option"
  route_text_color :: "string option"
  route_sort_order :: "int option"

record GTFSData =
  calendars :: "GTFSCalendar list"
  calendarDates :: "GTFSCalendarDate list"
  trips :: "GTFSTrip list"
  routes :: "GTFSRoute list"

text \<open>The literal type \<^verbatim>\<open>'added' | 'removed'\<close> of \<^verbatim>\<open>exceptionType\<close>.\<close>

datatype ExceptionKind = added | removed

record CalendarDayStatus =
  service_id :: string
  isActive :: bool
  isException :: bool
  exceptionType :: "ExceptionKind option"
  calendar :: "GTFSCalendar option"

text \<open>\<^verbatim>\<open>interface TripWithRoute extends GTFSTrip { route?: GTFSRoute }\<close>\<close>

record TripWithRoute = GTFSTrip +
  route :: "GTFSRoute option"

text \<open>The result object \<^verbatim>\<open>{ active, excluded }\<close> of \<^verbatim>\<open>getCalendarStatusForDate\<close>.\<close>

record CalendarStatus =
  active :: "CalendarDayStatus list"
  excluded :: "CalendarDayStatus list"


section \<open>JavaScript dates and the date-fns library\<close>

text \<open>
  Every \<^verbatim>\<open>Date\<close> the calendar service handles is a local midnight: \<^verbatim>\<open>parse\<close> with the
  pattern \<^verbatim>\<open>yyyyMMdd\<close> yields one, \<^verbatim>\<open>eachDayOfInterval\<close> yields them, and the clock
  reading is cut with \<^verbatim>\<open>setHours(0, 0, 0, 0)\<close>. A date is therefore its day number
  (day 0 is 1970-01-01), or JavaScript's Invalid Date, whose time value is NaN.
\<close>

datatype Date = InvalidDate | Day int

text \<open>
  \<^verbatim>\<open>a < b\<close> and \<^verbatim>\<open>a > b\<close> on Date objects compare the time values; a comparison with
  NaN is false.
\<close>

fun date_lt :: "Date \<Rightarrow> Date \<Rightarrow> bool" where
  "date_lt (Day a) (Day b) = (a < b)"
| "date_lt _ _ = False"

definition date_gt :: "Date \<Rightarrow> Date \<Rightarrow> bool" where
  "date_gt a b = date_lt b a"

text \<open>The only exception the library raises on these paths.\<close>

datatype error = RangeError

text \<open>
  date-fns is a dependency, not part of the repository, and the sources do not fix its
  version. Two behaviours exist for an interval whose start is after its end or one of
  whose ends is Invalid Date: releases 2.x throw \<^verbatim>\<open>RangeError\<close> (\<open>DateFns2\<close>); releases
  3.x and 4.x sort the two ends and never throw (\<open>DateFns3\<close>). The library version is a
  parameter of every function that reaches such an interval.
\<close>

datatype date_fns = DateFns2 | DateFns3

record Interval =
  interval_start :: Date
  interval_end :: Date

text \<open>\<^verbatim>\<open>isWithinInterval(date, { start, end })\<close>: both ends are included.\<close>

fun isWithinInterval :: "date_fns \<Rightarrow> Date \<Rightarrow> Interval \<Rightarrow> error + bool" where
  "isWithinInterval v d i =
     (case (interval_start i, interval_end i) of
        (Day s, Day e) \<Rightarrow>
          if s \<le> e then Inr (case d of Day t \<Rightarrow> s \<le> t \<and> t \<le> e | InvalidDate \<Rightarrow> False)
          else (case v of
                  DateFns2 \<Rightarrow> Inl RangeError
                | DateFns3 \<Rightarrow> Inr (case d of Day t \<Rightarrow> e \<le> t \<and> t \<le> s | InvalidDate \<Rightarrow> False))
      | _ \<Rightarrow> (case v of DateFns2 \<Rightarrow> Inl RangeError | DateFns3 \<Rightarrow> Inr False))"

text \<open>\<^verbatim>\<open>eachDayOfInterval({ start, end })\<close>: every day from start to end, both included.\<close>

fun eachDayOfInterval :: "date_fns \<Rightarrow> Interval \<Rightarrow> error + Date list" where
  "eachDayOfInterval v i =
     (case (interval_start i, interval_end i) of
        (Day s, Day e) \<Rightarrow>
          if s \<le> e then Inr (map Day [s..e])
          else (case v of
                  DateFns2 \<Rightarrow> Inl RangeError
                | DateFns3 \<Rightarrow> Inr (rev (map Day [e..s])))
      | _ \<Rightarrow> (case v of DateFns2 \<Rightarrow> Inl RangeError | DateFns3 \<Rightarrow> Inr []))"

text \<open>\<^verbatim>\<open>getDay\<close>: 0 is Sunday; day 0 was a Thursday. On Invalid Date the result is NaN.\<close>

fun getDay :: "Date \<Rightarrow> nat option" where
  "getDay (Day n) = Some (nat ((n + 4) mod 7))"
| "getDay InvalidDate = None"

subsection \<open>The proleptic Gregorian calendar\<close>

definition is_leap_year :: "int \<Rightarrow> bool" where
  "is_leap_year y = (y mod 400 = 0 \<or> (y mod 4 = 0 \<and> y mod 100 \<noteq> 0))"

definition days_in_month :: "int \<Rightarrow> int \<Rightarrow> int" where
  "days_in_month y m =
     (if m = 2 then (if is_leap_year y then 29 else 28)
      else if m = 4 \<or> m = 6 \<or> m = 9 \<or> m = 11 then 30 else 31)"

text \<open>Day number of a civil date, and back (years are counted from March inside).\<close>

definition days_from_civil :: "int \<Rightarrow> int \<Rightarrow> int \<Rightarrow> int" where
  "days_from_civil y m d =
     (let y' = (if m \<le> 2 then y - 1 else y);
          era = y' div 400;
          yoe = y' - era * 400;
          doy = (153 * (if m > 2 then m - 3 else m + 9) + 2) div 5 + d - 1;
          doe = yoe * 365 + yoe div 4 - yoe div 100 + doy
      in era * 146097 + doe - 719468)"

definition civil_from_days :: "int \<Rightarrow> int \<times> int \<times> int" where
  "civil_from_days z =
     (let z' = z + 719468;
          era = z' div 146097;
          doe = z' - era * 146097;
          yoe = (doe - doe div 1460 + doe div 36524 - doe div 146096) div 365;
          doy = doe - (365 * yoe + yoe div 4 - yoe div 100);
          mp = (5 * doy + 2) div 153;
          d = doy - (153 * mp + 2) div 5 + 1;
          m = (if mp < 10 then mp + 3 else mp - 9);
          y = yoe + era * 400 + (if m \<le> 2 then 1 else 0)
      in (y, m, d))"

subsection \<open>Parsing and formatting with the pattern yyyyMMdd\<close>

definition is_digit :: "char \<Rightarrow> bool" where
  "is_digit c = (48 \<le> (of_char c :: nat) \<and> (of_char c :: nat) \<le> 57)"

definition digit_value :: "char \<Rightarrow> int" where
  "digit_value c = int (of_char c) - 48"

definition number_of :: "string \<Rightarrow> int" where
  "number_of s = foldl (\<lambda>a c. 10 * a + digit_value c) 0 s"

text \<open>
  A numeric token of the pattern takes the longest run of leading digits, up to the
  token's width (the library matches \<^verbatim>\<open>^\d{1,4}\<close> for \<^verbatim>\<open>yyyy\<close>, \<^verbatim>\<open>^\d{1,2}\<close> for \<^verbatim>\<open>MM\<close> and
  \<^verbatim>\<open>dd\<close>). The result is the digits taken and the rest of the input.
\<close>

fun take_digits :: "nat \<Rightarrow> string \<Rightarrow> string \<times> string" where
  "take_digits k [] = ([], [])"
| "take_digits k (c # s) =
     (if k = 0 \<or> \<not> is_digit c then ([], c # s)
      else (case take_digits (k - 1) s of (ds, r) \<Rightarrow> (c # ds, r)))"

text \<open>
  The characters that JavaScript's \<^verbatim>\<open>\s\<close> matches, as far as they are in the range of
  \<open>char\<close>: tab, line feed, vertical tab, form feed, carriage return, space and the
  no-break space U+00A0. The others have code points above 255.
\<close>

definition is_whitespace :: "char \<Rightarrow> bool" where
  "is_whitespace c = ((of_char c :: nat) \<in> {9, 10, 11, 12, 13, 32, 160})"

text \<open>
  \<^verbatim>\<open>parse(s, 'yyyyMMdd', new Date())\<close>: Invalid Date when a token finds no digit, when
  anything but white space is left over, or when year, month or day is out of range.
\<close>

definition parse_yyyyMMdd :: "string \<Rightarrow> Date" where
  "parse_yyyyMMdd s =
     (case take_digits 4 s of (ys, r1) \<Rightarrow>
      case take_digits 2 r1 of (ms, r2) \<Rightarrow>
      case take_digits 2 r2 of (ds, r3) \<Rightarrow>
        if ys = [] \<or> ms = [] \<or> ds = [] \<or> \<not> list_all is_whitespace r3 then InvalidDate
        else (let y = number_of ys; m = number_of ms; d = number_of ds
              in if 0 < y \<and> 1 \<le> m \<and> m \<le> 12 \<and> 1 \<le> d \<and> d \<le> days_in_month y m
                 then Day (days_from_civil y m d) else InvalidDate))"

definition digit_char :: "nat \<Rightarrow> char" where
  "digit_char k = (if k < 10 then ''0123456789'' ! k else CHR ''?'')"

fun decimal :: "nat \<Rightarrow> string" where
  "decimal n = (if n < 10 then [digit_char n] else decimal (n div 10) @ [digit_char (n mod 10)])"

declare decimal.simps [simp del]

text \<open>\<^verbatim>\<open>addLeadingZeros\<close>: pad with zeros on the left up to the given width.\<close>

definition pad_zeros :: "nat \<Rightarrow> nat \<Rightarrow> string" where
  "pad_zeros w n = replicate (w - length (decimal n)) (CHR ''0'') @ decimal n"

text \<open>
  \<^verbatim>\<open>format(date, 'yyyyMMdd')\<close>: throws \<^verbatim>\<open>RangeError\<close> on Invalid Date. A year that is not
  positive is written as one minus the year, as the library does for the token \<^verbatim>\<open>y\<close>.
\<close>

fun format_yyyyMMdd :: "Date \<Rightarrow> error + string" where
  "format_yyyyMMdd InvalidDate = Inl RangeError"
| "format_yyyyMMdd (Day n) =
     (case civil_from_days n of (y, m, d) \<Rightarrow>
        Inr (pad_zeros 4 (nat (if 0 < y then y else 1 - y)) @ pad_zeros 2 (nat m) @ pad_zeros 2 (nat d)))"


section \<open>The calendar service (utils/calendarService.ts)\<close>

text \<open>A \<^verbatim>\<open>for (const x of xs)\<close> loop whose body may throw: the first error ends the loop.\<close>

fun for_of :: "'a list \<Rightarrow> ('a \<Rightarrow> 's \<Rightarrow> error + 's) \<Rightarrow> 's \<Rightarrow> error + 's" where
  "for_of [] body s = Inr s"
| "for_of (x # xs) body s = (case body x s of Inl e \<Rightarrow> Inl e | Inr s' \<Rightarrow> for_of xs body s')"

definition dayOfWeekKeys :: "(GTFSCalendar \<Rightarrow> bool) list" where
  "dayOfWeekKeys = [sunday, monday, tuesday, wednesday, thursday, friday, saturday]"

definition parseGTFSDate :: "string \<Rightarrow> Date" where
  "parseGTFSDate dateString = parse_yyyyMMdd dateString"

definition formatGTFSDate :: "Date \<Rightarrow> error + string" where
  "formatGTFSDate d = format_yyyyMMdd d"

text \<open>
  On Invalid Date \<^verbatim>\<open>getDay\<close> is NaN, \<^verbatim>\<open>dayOfWeekKeys[NaN]\<close> is undefined and so is
  \<^verbatim>\<open>calendar[undefined]\<close>: callers only test the result, and undefined tests as false.
\<close>

definition isCalendarActiveOnDayOfWeek :: "GTFSCalendar \<Rightarrow> Date \<Rightarrow> bool" where
  "isCalendarActiveOnDayOfWeek c d =
     (case getDay d of
        None \<Rightarrow> False
      | Some dayOfWeek \<Rightarrow>
          if dayOfWeek < length dayOfWeekKeys then (dayOfWeekKeys ! dayOfWeek) c else False)"

definition isDateInCalendarRange :: "date_fns \<Rightarrow> GTFSCalendar \<Rightarrow> Date \<Rightarrow> error + bool" where
  "isDateInCalendarRange v c d =
     (let startDate = parseGTFSDate (start_date c);
          endDate = parseGTFSDate (end_date c)
      in isWithinInterval v d \<lparr>interval_start = startDate, interval_end = endDate\<rparr>)"

text \<open>
  The body of the first loop of \<^verbatim>\<open>getCalendarStatusForDate\<close>, over \<^verbatim>\<open>gtfsData.calendars\<close>.
  The arrays \<^verbatim>\<open>active\<close> and \<^verbatim>\<open>excluded\<close> are the loop state; \<^verbatim>\<open>push\<close> appends.
\<close>

definition calendar_body ::
  "date_fns \<Rightarrow> GTFSData \<Rightarrow> Date \<Rightarrow> string \<Rightarrow> GTFSCalendar \<Rightarrow> CalendarStatus \<Rightarrow> error + CalendarStatus"
where
  "calendar_body v gtfsData d dateString c st =
     (case isDateInCalendarRange v c d of
        Inl e \<Rightarrow> Inl e
      | Inr isInRange \<Rightarrow>
          (let isActiveDay = isCalendarActiveOnDayOfWeek c d;
               baseActive = (isInRange \<and> isActiveDay);
               exception = List.find
                 (\<lambda>cd. GTFSCalendarDate.service_id cd = GTFSCalendar.service_id c \<and> date cd = dateString)
                 (calendarDates gtfsData)
           in case exception of
                Some ex \<Rightarrow>
                  (case exception_type ex of
                     Added \<Rightarrow>
                       Inr (st\<lparr>active := active st @
                         [\<lparr>service_id = GTFSCalendar.service_id c, isActive = True,
                           isException = True, exceptionType = Some added, calendar = Some c\<rparr>]\<rparr>)
                   | Removed \<Rightarrow>
                       if baseActive
                       then Inr (st\<lparr>excluded := excluded st @
                         [\<lparr>service_id = GTFSCalendar.service_id c, isActive = False,
                           isException = True, exceptionType = Some removed, calendar = Some c\<rparr>]\<rparr>)
                       else Inr st)
              | None \<Rightarrow>
                  if baseActive
                  then Inr (st\<lparr>active := active st @
                    [\<lparr>service_id = GTFSCalendar.service_id c, isActive = True,
                      isException = False, exceptionType = None, calendar = Some c\<rparr>]\<rparr>)
                  else Inr st))"

text \<open>
  The body of the second loop, over \<^verbatim>\<open>gtfsData.calendarDates\<close>. The set
  \<^verbatim>\<open>addedServiceIds\<close> of the source is written and never read; it is left out.
\<close>

definition exception_body ::
  "string set \<Rightarrow> string \<Rightarrow> GTFSCalendarDate \<Rightarrow> CalendarStatus \<Rightarrow> error + CalendarStatus"
where
  "exception_body calendarServiceIds dateString calendarDate st =
     (if date calendarDate \<noteq> dateString then Inr st
      else if GTFSCalendarDate.service_id calendarDate \<in> calendarServiceIds then Inr st
      else if exception_type calendarDate = Added
      then Inr (st\<lparr>active := active st @
             [\<lparr>service_id = GTFSCalendarDate.service_id calendarDate, isActive = True,
               isException = True, exceptionType = Some added, calendar = None\<rparr>]\<rparr>)
      else Inr st)"

definition getCalendarStatusForDate :: "date_fns \<Rightarrow> GTFSData \<Rightarrow> Date \<Rightarrow> error + CalendarStatus" where
  "getCalendarStatusForDate v gtfsData d =
     (case formatGTFSDate d of
        Inl e \<Rightarrow> Inl e
      | Inr dateString \<Rightarrow>
          (case for_of (calendars gtfsData) (calendar_body v gtfsData d dateString)
                  \<lparr>active = [], excluded = []\<rparr> of
             Inl e \<Rightarrow> Inl e
           | Inr st \<Rightarrow>
               (let calendarServiceIds = set (map GTFSCalendar.service_id (calendars gtfsData))
                in for_of (calendarDates gtfsData) (exception_body calendarServiceIds dateString) st)))"

definition getActiveServiceIds :: "date_fns \<Rightarrow> GTFSData \<Rightarrow> Date \<Rightarrow> error + string set" where
  "getActiveServiceIds v gtfsData d =
     (case getCalendarStatusForDate v gtfsData d of
        Inl e \<Rightarrow> Inl e
      | Inr st \<Rightarrow> Inr (set (map CalendarDayStatus.service_id (active st))))"

text \<open>\<^verbatim>\<open>new Map(entries)\<close> sets the entries in order: a later key overwrites an earlier one.\<close>

definition new_Map :: "('k \<times> 'v) list \<Rightarrow> ('k \<rightharpoonup> 'v)" where
  "new_Map entries = foldl (\<lambda>m (k, v). m(k \<mapsto> v)) Map.empty entries"

definition getTripsForDate :: "date_fns \<Rightarrow> GTFSData \<Rightarrow> Date \<Rightarrow> error + TripWithRoute list" where
  "getTripsForDate v gtfsData d =
     (case getActiveServiceIds v gtfsData d of
        Inl e \<Rightarrow> Inl e
      | Inr activeServiceIds \<Rightarrow>
          (let routeMap = new_Map (map (\<lambda>r. (GTFSRoute.route_id r, r)) (routes gtfsData))
           in Inr (map (\<lambda>trip. GTFSTrip.extend trip \<lparr>route = routeMap (GTFSTrip.route_id trip)\<rparr>)
                    (filter (\<lambda>trip. GTFSTrip.service_id trip \<in> activeServiceIds) (trips gtfsData)))))"

definition base_body ::
  "date_fns \<Rightarrow> Date \<Rightarrow> GTFSCalendar \<Rightarrow> CalendarDayStatus list \<Rightarrow> error + CalendarDayStatus list"
where
  "base_body v d c baseCalendars =
     (case isDateInCalendarRange v c d of
        Inl e \<Rightarrow> Inl e
      | Inr isInRange \<Rightarrow>
          (let isActiveDay = isCalendarActiveOnDayOfWeek c d
           in if isInRange \<and> isActiveDay
              then Inr (baseCalendars @
                [\<lparr>service_id = GTFSCalendar.service_id c, isActive = True,
                  isException = False, exceptionType = None, calendar = Some c\<rparr>])
              else Inr baseCalendars))"

definition getBaseCalendarsForDate ::
  "date_fns \<Rightarrow> GTFSData \<Rightarrow> Date \<Rightarrow> error + CalendarDayStatus list"
where
  "getBaseCalendarsForDate v gtfsData d = for_of (calendars gtfsData) (base_body v d) []"

text \<open>
  \<^verbatim>\<open>if (!minDate || d < minDate) minDate = d\<close> and its mirror image for \<^verbatim>\<open>maxDate\<close>;
  \<open>None\<close> is \<^verbatim>\<open>null\<close>. A Date object is truthy also when it is Invalid Date.
\<close>

definition update_min :: "Date option \<Rightarrow> Date \<Rightarrow> Date option" where
  "update_min minDate d =
     (case minDate of None \<Rightarrow> Some d | Some m \<Rightarrow> if date_lt d m then Some d else Some m)"

definition update_max :: "Date option \<Rightarrow> Date \<Rightarrow> Date option" where
  "update_max maxDate d =
     (case maxDate of None \<Rightarrow> Some d | Some m \<Rightarrow> if date_gt d m then Some d else Some m)"

definition range_calendar_body :: "Date option \<times> Date option \<Rightarrow> GTFSCalendar \<Rightarrow> Date option \<times> Date option" where
  "range_calendar_body acc c =
     (case acc of (minDate, maxDate) \<Rightarrow>
        (let startDate = parseGTFSDate (start_date c);
             endDate = parseGTFSDate (end_date c)
         in (update_min minDate startDate, update_max maxDate endDate)))"

definition range_exception_body :: "Date option \<times> Date option \<Rightarrow> GTFSCalendarDate \<Rightarrow> Date option \<times> Date option" where
  "range_exception_body acc calendarDate =
     (case acc of (minDate, maxDate) \<Rightarrow>
        (let d = parseGTFSDate (date calendarDate)
         in (update_min minDate d, update_max maxDate d)))"

definition getDateRange :: "GTFSData \<Rightarrow> Interval option" where
  "getDateRange gtfsData =
     (if length (calendars gtfsData) = 0 \<and> length (calendarDates gtfsData) = 0 then None
      else (case foldl range_exception_body
                   (foldl range_calendar_body (None, None) (calendars gtfsData))
                   (calendarDates gtfsData) of
              (Some minDate, Some maxDate) \<Rightarrow> Some \<lparr>interval_start = minDate, interval_end = maxDate\<rparr>
            | _ \<Rightarrow> None))"

text \<open>
  \<^verbatim>\<open>getAvailableDates(gtfsData)\<close> has the data set as its only parameter and reads the
  wall clock: \<^verbatim>\<open>const today = new Date(); today.setHours(0, 0, 0, 0)\<close>. The clock is
  ambient state, so the model receives its reading, the day number \<open>now\<close> of the
  current day, as a further argument.
\<close>

definition getAvailableDates :: "date_fns \<Rightarrow> int \<Rightarrow> GTFSData \<Rightarrow> error + Date list" where
  "getAvailableDates v now gtfsData =
     (case getDateRange gtfsData of
        None \<Rightarrow> Inr []
      | Some rng \<Rightarrow>
          (let today = Day now;
               startDate = (if date_gt today (interval_start rng) then today else interval_start rng)
           in if date_gt startDate (interval_end rng) then Inr []
              else eachDayOfInterval v \<lparr>interval_start = startDate, interval_end = interval_end rng\<rparr>))"


section \<open>The validator (utils/gtfsValidator.ts)\<close>

datatype IssueType = error | warning

text \<open>The field \<^verbatim>\<open>file\<close> of an issue is \<open>file_name\<close> here.\<close>

record ValidationIssue =
  type :: IssueType
  file_name :: string
  field :: string
  message :: string
  duplicates :: "string list"

record ValidationStats =
  tripsChecked :: nat
  calendarsChecked :: nat
  calendarDatesChecked :: nat

record ValidationResult =
  isValid :: bool
  issues :: "ValidationIssue list"
  stats :: ValidationStats

text \<open>
  A JavaScript \<^verbatim>\<open>Map\<close> iterates in the order in which its keys were first set, and
  setting a key again keeps its place: an association list with \<open>map_set\<close>.
\<close>

fun map_get :: "('k \<times> 'v) list \<Rightarrow> 'k \<Rightarrow> 'v option" where
  "map_get [] k = None"
| "map_get ((k', v) # m) k = (if k' = k then Some v else map_get m k)"

fun map_set :: "('k \<times> 'v) list \<Rightarrow> 'k \<Rightarrow> 'v \<Rightarrow> ('k \<times> 'v) list" where
  "map_set [] k v = [(k, v)]"
| "map_set ((k', v') # m) k v = (if k' = k then (k', v) # m else (k', v') # map_set m k v)"

text \<open>\<^verbatim>\<open>const count = seen.get(item) || 0; seen.set(item, count + 1)\<close>\<close>

definition count_item :: "(string \<times> nat) list \<Rightarrow> string \<Rightarrow> (string \<times> nat) list" where
  "count_item seen item =
     (let count = (case map_get seen item of None \<Rightarrow> 0 | Some n \<Rightarrow> n)
      in map_set seen item (count + 1))"

definition findDuplicates :: "string list \<Rightarrow> string list" where
  "findDuplicates arr =
     (let seen = foldl count_item [] arr
      in map fst (filter (\<lambda>(item, count). count > 1) seen))"

text \<open>\<^verbatim>\<open>key.split('|')\<close>: the pieces between the separators; never an empty array.\<close>

fun split :: "char \<Rightarrow> string \<Rightarrow> string list" where
  "split sep [] = [[]]"
| "split sep (c # s) =
     (if c = sep then [] # split sep s
      else (case split sep s of [] \<Rightarrow> [[c]] | p # ps \<Rightarrow> (c # p) # ps))"

text \<open>
  An element of a destructured array inside a template literal: a missing element is
  \<^verbatim>\<open>undefined\<close> and prints as that word.
\<close>

definition element :: "string list \<Rightarrow> nat \<Rightarrow> string" where
  "element parts i = (if i < length parts then parts ! i else ''undefined'')"

definition describe_key :: "string \<Rightarrow> string" where
  "describe_key key =
     (let parts = split (CHR ''|'') key;
          serviceId = element parts 0;
          d = element parts 1
      in ''service_id=\"'' @ serviceId @ ''\", date=\"'' @ d @ ''\"'')"

definition trips_check :: "GTFSData \<Rightarrow> ValidationIssue list" where
  "trips_check gtfsData =
     (let tripIds = map trip_id (trips gtfsData);
          duplicateTripIds = findDuplicates tripIds
      in if length duplicateTripIds > 0
         then [\<lparr>type = error, file_name = ''trips.txt'', field = ''trip_id'',
                message = ''Found '' @ decimal (length duplicateTripIds) @ '' duplicate trip_id value(s)'',
                duplicates = duplicateTripIds\<rparr>]
         else [])"

definition calendars_check :: "GTFSData \<Rightarrow> ValidationIssue list" where
  "calendars_check gtfsData =
     (let calendarServiceIds = map GTFSCalendar.service_id (calendars gtfsData);
          duplicateCalendarServiceIds = findDuplicates calendarServiceIds
      in if length duplicateCalendarServiceIds > 0
         then [\<lparr>type = error, file_name = ''calendar.txt'', field = ''service_id'',
                message = ''Found '' @ decimal (length duplicateCalendarServiceIds) @
                          '' duplicate service_id value(s)'',
                duplicates = duplicateCalendarServiceIds\<rparr>]
         else [])"

definition calendarDates_check :: "GTFSData \<Rightarrow> ValidationIssue list" where
  "calendarDates_check gtfsData =
     (let calendarDateKeys =
            map (\<lambda>cd. GTFSCalendarDate.service_id cd @ ''|'' @ date cd) (calendarDates gtfsData);
          duplicateCalendarDateKeys = findDuplicates calendarDateKeys
      in if length duplicateCalendarDateKeys > 0
         then [\<lparr>type = error, file_name = ''calendar_dates.txt'', field = ''service_id + date'',
                message = ''Found '' @ decimal (length duplicateCalendarDateKeys) @
                          '' duplicate service_id + date combination(s)'',
                duplicates = map describe_key duplicateCalendarDateKeys\<rparr>]
         else [])"

text \<open>The three checks push their issue, if any, onto \<^verbatim>\<open>issues\<close> in this order.\<close>

definition validateGTFSData :: "GTFSData \<Rightarrow> ValidationResult" where
  "validateGTFSData gtfsData =
     (let issues = trips_check gtfsData @ calendars_check gtfsData @ calendarDates_check gtfsData
      in \<lparr>isValid = (length issues = 0),
          issues = issues,
          stats = \<lparr>tripsChecked = length (trips gtfsData),
                   calendarsChecked = length (calendars gtfsData),
                   calendarDatesChecked = length (calendarDates gtfsData)\<rparr>\<rparr>)"


section \<open>The resolver's contract\<close>

text \<open>
  The decision table of the calendar resolver, written from its contract rather than
  from the loops: the outcome for one calendar row depends on the first exception that
  matches the row's \<^verbatim>\<open>service_id\<close> and the date string, and on whether the row is active
  under the base rule.
\<close>

datatype Outcome = NoEntry | ActiveEntry CalendarDayStatus | ExcludedEntry CalendarDayStatus

definition first_match :: "GTFSCalendarDate list \<Rightarrow> string \<Rightarrow> string \<Rightarrow> GTFSCalendarDate option" where
  "first_match exceptions sid dateString =
     (case filter (\<lambda>cd. GTFSCalendarDate.service_id cd = sid \<and> date cd = dateString) exceptions of
        [] \<Rightarrow> None
      | ex # _ \<Rightarrow> Some ex)"

text \<open>
  The status entry of a calendar row: it carries the row as its back-reference, and
  \<^verbatim>\<open>isException\<close> says whether an exception type is present.
\<close>

definition status_of :: "GTFSCalendar \<Rightarrow> bool \<Rightarrow> ExceptionKind option \<Rightarrow> CalendarDayStatus" where
  "status_of c act kind =
     \<lparr>service_id = GTFSCalendar.service_id c, isActive = act,
      isException = (kind \<noteq> None), exceptionType = kind, calendar = Some c\<rparr>"

definition decision_table :: "GTFSCalendar \<Rightarrow> GTFSCalendarDate option \<Rightarrow> bool \<Rightarrow> Outcome" where
  "decision_table c exc base =
     (case exc of
        None \<Rightarrow> if base then ActiveEntry (status_of c True None) else NoEntry
      | Some ex \<Rightarrow>
          (case exception_type ex of
             Added \<Rightarrow> ActiveEntry (status_of c True (Some added))
           | Removed \<Rightarrow> if base then ExcludedEntry (status_of c False (Some removed)) else NoEntry))"

text \<open>The base rule: the date is in the row's range and the flag of its weekday is set.\<close>

definition baseActive :: "date_fns \<Rightarrow> GTFSCalendar \<Rightarrow> Date \<Rightarrow> bool" where
  "baseActive v c d = (isDateInCalendarRange v c d = Inr True \<and> isCalendarActiveOnDayOfWeek c d)"

definition classify :: "date_fns \<Rightarrow> GTFSData \<Rightarrow> Date \<Rightarrow> string \<Rightarrow> GTFSCalendar \<Rightarrow> Outcome" where
  "classify v g d dateString c =
     decision_table c (first_match (calendarDates g) (GTFSCalendar.service_id c) dateString)
       (baseActive v c d)"

fun active_of :: "Outcome \<Rightarrow> CalendarDayStatus list" where
  "active_of (ActiveEntry s) = [s]"
| "active_of _ = []"

fun excluded_of :: "Outcome \<Rightarrow> CalendarDayStatus list" where
  "excluded_of (ExcludedEntry s) = [s]"
| "excluded_of _ = []"

text \<open>The service ids of the calendar table.\<close>

definition calendar_ids :: "GTFSData \<Rightarrow> string set" where
  "calendar_ids g = set (map GTFSCalendar.service_id (calendars g))"

text \<open>
  The exception rows of exception-only services on a date: the date string matches and
  the \<^verbatim>\<open>service_id\<close> appears in no calendar row.
\<close>

definition exception_only :: "GTFSData \<Rightarrow> string \<Rightarrow> GTFSCalendarDate list" where
  "exception_only g dateString =
     filter (\<lambda>cd. date cd = dateString \<and>
                  GTFSCalendarDate.service_id cd \<notin> set (map GTFSCalendar.service_id (calendars g)))
       (calendarDates g)"

definition added_only_status :: "GTFSCalendarDate \<Rightarrow> CalendarDayStatus" where
  "added_only_status cd =
     \<lparr>service_id = GTFSCalendarDate.service_id cd, isActive = True,
      isException = True, exceptionType = Some added, calendar = None\<rparr>"

text \<open>The flag of a row for the weekday of day \<open>n\<close> (Sunday is 0, Saturday is 6).\<close>

definition weekday_flag :: "GTFSCalendar \<Rightarrow> int \<Rightarrow> bool" where
  "weekday_flag c n =
     (let w = (n + 4) mod 7
      in if w = 0 then sunday c else if w = 1 then monday c else if w = 2 then tuesday c
         else if w = 3 then wednesday c else if w = 4 then thursday c
         else if w = 5 then friday c else saturday c)"

text \<open>A row whose two dates parse and are in order.\<close>

definition range_ok :: "GTFSCalendar \<Rightarrow> bool" where
  "range_ok c =
     (case (parseGTFSDate (start_date c), parseGTFSDate (end_date c)) of
        (Day s, Day e) \<Rightarrow> s \<le> e
      | _ \<Rightarrow> False)"

section \<open>Routes, date ranges and repeated keys\<close>

text \<open>
  The route a trip gets: the last row of the route table that shares its \<^verbatim>\<open>route_id\<close>,
  none when no row does.
\<close>

definition last_route :: "GTFSRoute list \<Rightarrow> string \<Rightarrow> GTFSRoute option" where
  "last_route rs k =
     (let sharing = filter (\<lambda>ro. GTFSRoute.route_id ro = k) rs
      in if sharing = [] then None else Some (last sharing))"

text \<open>
  The dates of a data set, parsed: the start dates and the end dates of the calendar
  rows and the dates of the exception rows, each in the order of its table; and the day
  numbers of the dates of a list that are valid.
\<close>

fun valid_days :: "Date list \<Rightarrow> int list" where
  "valid_days [] = []"
| "valid_days (Day n # ds) = n # valid_days ds"
| "valid_days (InvalidDate # ds) = valid_days ds"

definition start_dates :: "GTFSData \<Rightarrow> Date list" where
  "start_dates g = map (\<lambda>c. parseGTFSDate (start_date c)) (calendars g)"

definition end_dates :: "GTFSData \<Rightarrow> Date list" where
  "end_dates g = map (\<lambda>c. parseGTFSDate (end_date c)) (calendars g)"

definition exception_dates :: "GTFSData \<Rightarrow> Date list" where
  "exception_dates g = map (\<lambda>cd. parseGTFSDate (date cd)) (calendarDates g)"

text \<open>
  The values of a list in the order of their first appearance, each once; and those of
  them that appear at least twice.
\<close>

fun first_seen :: "'a list \<Rightarrow> 'a list" where
  "first_seen [] = []"
| "first_seen (x # xs) = x # removeAll x (first_seen xs)"

definition repeated :: "'a list \<Rightarrow> 'a list" where
  "repeated xs = filter (\<lambda>k. 1 < count_list xs k) (first_seen xs)"

text \<open>
  The composite key the validator builds for an exception row, the pair of fields it
  stands for, and the description of a pair in an issue.
\<close>

definition exception_key :: "GTFSCalendarDate \<Rightarrow> string" where
  "exception_key cd = GTFSCalendarDate.service_id cd @ ''|'' @ date cd"

definition describe_pair :: "string \<times> string \<Rightarrow> string" where
  "describe_pair p = ''service_id=\"'' @ fst p @ ''\", date=\"'' @ snd p @ ''\"''"

definition exception_pair :: "GTFSCalendarDate \<Rightarrow> string \<times> string" where
  "exception_pair cd = (GTFSCalendarDate.service_id cd, date cd)"


section \<open>Example feeds\<close>

text \<open>
  A weekday service and a weekend service for the year 2024; the weekday row appears
  twice. On Thursday 2024-07-04 (day 19908) the weekday service is removed, the weekend
  service is added, a second exception for the weekday service follows the first, and
  two services exist only as exceptions.
\<close>

definition example_WD :: GTFSCalendar where
  "example_WD = \<lparr>GTFSCalendar.service_id = ''WD'', monday = True, tuesday = True, wednesday = True,
     thursday = True, friday = True, saturday = False, sunday = False,
     start_date = ''20240101'', end_date = ''20241231''\<rparr>"

definition example_WE :: GTFSCalendar where
  "example_WE = \<lparr>GTFSCalendar.service_id = ''WE'', monday = False, tuesday = False, wednesday = False,
     thursday = False, friday = False, saturday = True, sunday = True,
     start_date = ''20240101'', end_date = ''20241231''\<rparr>"

definition example_exceptions :: "GTFSCalendarDate list" where
  "example_exceptions =
     [\<lparr>GTFSCalendarDate.service_id = ''WD'', date = ''20240704'', exception_type = Removed\<rparr>,
      \<lparr>GTFSCalendarDate.service_id = ''WE'', date = ''20240704'', exception_type = Added\<rparr>,
      \<lparr>GTFSCalendarDate.service_id = ''WD'', date = ''20240704'', exception_type = Added\<rparr>,
      \<lparr>GTFSCalendarDate.service_id = ''HOLIDAY'', date = ''20240704'', exception_type = Added\<rparr>,
      \<lparr>GTFSCalendarDate.service_id = ''GHOST'', date = ''20240704'', exception_type = Removed\<rparr>]"

definition example_feed :: GTFSData where
  "example_feed = \<lparr>calendars = [example_WD, example_WE, example_WD],
     calendarDates = example_exceptions, trips = [], routes = []\<rparr>"

definition example_result :: CalendarStatus where
  "example_result =
     \<lparr>active =
        [\<lparr>service_id = ''WE'', isActive = True, isException = True,
          exceptionType = Some added, calendar = Some example_WE\<rparr>,
         \<lparr>service_id = ''HOLIDAY'', isActive = True, isException = True,
          exceptionType = Some added, calendar = None\<rparr>],
      excluded =
        [\<lparr>service_id = ''WD'', isActive = False, isException = True,
          exceptionType = Some removed, calendar = Some example_WD\<rparr>,
         \<lparr>service_id = ''WD'', isActive = False, isException = True,
          exceptionType = Some removed, calendar = Some example_WD\<rparr>]\<rparr>"

text \<open>
  A row whose start date is after its end date, with an Added exception on 2024-03-01
  (day 19783), outside both orders of the two dates; 2024-01-15 is day 19737. And a row
  whose start date does not parse, with an Added exception on 2024-07-04.
\<close>

definition reversed_row :: GTFSCalendar where
  "reversed_row = \<lparr>GTFSCalendar.service_id = ''R'', monday = True, tuesday = True, wednesday = True,
     thursday = True, friday = True, saturday = True, sunday = True,
     start_date = ''20240201'', end_date = ''20240101''\<rparr>"

definition reversed_feed :: GTFSData where
  "reversed_feed = \<lparr>calendars = [reversed_row],
     calendarDates = [\<lparr>GTFSCalendarDate.service_id = ''R'', date = ''20240301'', exception_type = Added\<rparr>],
     trips = [], routes = []\<rparr>"

text \<open>
  The reversed row alone, and the reversed row with a Removed exception on 2024-01-15
  (day 19737), a Monday between its end date and its start date.
\<close>

definition reversed_only_feed :: GTFSData where
  "reversed_only_feed = \<lparr>calendars = [reversed_row], calendarDates = [],
     trips = [], routes = []\<rparr>"

definition reversed_removed_feed :: GTFSData where
  "reversed_removed_feed = \<lparr>calendars = [reversed_row],
     calendarDates = [\<lparr>GTFSCalendarDate.service_id = ''R'', date = ''20240115'', exception_type = Removed\<rparr>],
     trips = [], routes = []\<rparr>"

definition unparseable_row :: GTFSCalendar where
  "unparseable_row = \<lparr>GTFSCalendar.service_id = ''U'', monday = True, tuesday = True, wednesday = True,
     thursday = True, friday = True, saturday = True, sunday = True,
     start_date = ''2024-01-01'', end_date = ''20241231''\<rparr>"

definition unparseable_feed :: GTFSData where
  "unparseable_feed = \<lparr>calendars = [unparseable_row],
     calendarDates = [\<lparr>GTFSCalendarDate.service_id = ''U'', date = ''20240704'', exception_type = Added\<rparr>],
     trips = [], routes = []\<rparr>"

text \<open>
  The example feed with four trips and a route table in which \<^verbatim>\<open>R1\<close> appears twice; no
  route has the id \<^verbatim>\<open>R9\<close>.
\<close>

definition example_R1 :: GTFSRoute where
  "example_R1 = \<lparr>route_id = ''R1'', agency_id = None, route_short_name = Some ''1'',
     route_long_name = None, route_desc = None, route_type = 3, route_url = None,
     route_color = None, route_text_color = None, route_sort_order = None\<rparr>"

definition example_R1b :: GTFSRoute where
  "example_R1b = example_R1\<lparr>route_short_name := Some ''1b''\<rparr>"

definition example_trip :: "string \<Rightarrow> string \<Rightarrow> string \<Rightarrow> GTFSTrip" where
  "example_trip tid sid rid =
     \<lparr>GTFSTrip.route_id = rid, GTFSTrip.service_id = sid, trip_id = tid, trip_headsign = None,
      trip_short_name = None, direction_id = None, block_id = None, shape_id = None,
      wheelchair_accessible = None, bikes_allowed = None\<rparr>"

definition example_trips_feed :: GTFSData where
  "example_trips_feed = example_feed
     \<lparr>trips := [example_trip ''T1'' ''WD'' ''R1'', example_trip ''T2'' ''WE'' ''R1'',
                example_trip ''T3'' ''HOLIDAY'' ''R9'', example_trip ''T4'' ''NONE'' ''R1''],
      routes := [example_R1, example_R1b]\<rparr>"

text \<open>
  A feed with one row from 2024-01-01 (day 19723) to 2024-02-01 (day 19754) and no
  exceptions, and the feed with four empty tables.
\<close>

definition january_row :: GTFSCalendar where
  "january_row = \<lparr>GTFSCalendar.service_id = ''J'', monday = True, tuesday = True, wednesday = True,
     thursday = True, friday = True, saturday = True, sunday = True,
     start_date = ''20240101'', end_date = ''20240201''\<rparr>"

definition january_feed :: GTFSData where
  "january_feed = \<lparr>calendars = [january_row], calendarDates = [], trips = [], routes = []\<rparr>"

definition empty_feed :: GTFSData where
  "empty_feed = \<lparr>calendars = [], calendarDates = [], trips = [], routes = []\<rparr>"

text \<open>
  An exception table whose \<^verbatim>\<open>service_id\<close> contains the character that the validator
  uses as separator of its composite key: two pairs of \<^verbatim>\<open>service_id\<close> and date, each
  twice. And an exception table of two different pairs that give the same composite key.
\<close>

definition piped_feed :: GTFSData where
  "piped_feed = \<lparr>calendars = [],
     calendarDates =
       [\<lparr>GTFSCalendarDate.service_id = ''A|B'', date = ''20240101'', exception_type = Added\<rparr>,
        \<lparr>GTFSCalendarDate.service_id = ''A|B'', date = ''20240101'', exception_type = Removed\<rparr>,
        \<lparr>GTFSCalendarDate.service_id = ''A|B'', date = ''20240102'', exception_type = Added\<rparr>,
        \<lparr>GTFSCalendarDate.service_id = ''A|B'', date = ''20240102'', exception_type = Added\<rparr>],
     trips = [], routes = []\<rparr>"

definition colliding_feed :: GTFSData where
  "colliding_feed = \<lparr>calendars = [],
     calendarDates =
       [\<lparr>GTFSCalendarDate.service_id = ''A|B'', date = ''C'', exception_type = Added\<rparr>,
        \<lparr>GTFSCalendarDate.service_id = ''A'', date = ''B|C'', exception_type = Added\<rparr>],
     trips = [], routes = []\<rparr>"


section \<open>Dates of the examples\<close>

lemmas parse_eval = parseGTFSDate_def parse_yyyyMMdd_def is_digit_def number_of_def digit_value_def
        days_in_month_def is_leap_year_def days_from_civil_def is_whitespace_def

lemma parse_20240101: "parseGTFSDate ''20240101'' = Day 19723"
  by (simp add: parse_eval)

lemma parse_20241231: "parseGTFSDate ''20241231'' = Day 20088"
  by (simp add: parse_eval)

lemma parse_20240201: "parseGTFSDate ''20240201'' = Day 19754"
  by (simp add: parse_eval)

lemma parse_dashed: "parseGTFSDate ''2024-01-01'' = InvalidDate"
  by (simp add: parse_eval)

lemma format_19783: "formatGTFSDate (Day 19783) = Inr ''20240301''"
  by code_simp

lemma format_19737: "formatGTFSDate (Day 19737) = Inr ''20240115''"
  by code_simp

lemma format_19908: "formatGTFSDate (Day 19908) = Inr ''20240704''"
  by code_simp

lemma format_19907: "formatGTFSDate (Day 19907) = Inr ''20240703''"
  by code_simp

lemma format_Day: "\<exists>ds. formatGTFSDate (Day n) = Inr ds"
  by (simp add: formatGTFSDate_def split: prod.split)


section \<open>The base rule\<close>

lemma no_throw_iff: "(x \<noteq> Inl RangeError) = (\<exists>b. x = Inr b)"
  by (cases x) (auto intro: error.exhaust)

lemma in_range_ordered:
  assumes "parseGTFSDate (start_date c) = Day s" and "parseGTFSDate (end_date c) = Day e" and "s \<le> e"
  shows "isDateInCalendarRange v c (Day n) = Inr (s \<le> n \<and> n \<le> e)"
  using assms by (simp add: isDateInCalendarRange_def)

lemma in_range_throws_iff:
  "(isDateInCalendarRange v c d = Inl RangeError) = (v = DateFns2 \<and> \<not> range_ok c)"
  by (cases v; cases "parseGTFSDate (start_date c)"; cases "parseGTFSDate (end_date c)")
     (auto simp: isDateInCalendarRange_def range_ok_def)

lemma active_on_weekday: "isCalendarActiveOnDayOfWeek c (Day n) = weekday_flag c n"
proof -
  have "0 \<le> (n + 4) mod 7" "(n + 4) mod 7 < 7" by simp_all
  then consider "(n + 4) mod 7 = 0" | "(n + 4) mod 7 = 1" | "(n + 4) mod 7 = 2" | "(n + 4) mod 7 = 3"
    | "(n + 4) mod 7 = 4" | "(n + 4) mod 7 = 5" | "(n + 4) mod 7 = 6" by linarith
  then show ?thesis
    by cases (simp_all add: isCalendarActiveOnDayOfWeek_def dayOfWeekKeys_def weekday_flag_def)
qed

lemma baseActive_ordered:
  assumes "parseGTFSDate (start_date c) = Day s" and "parseGTFSDate (end_date c) = Day e" and "s \<le> e"
  shows "baseActive v c (Day n) = (s \<le> n \<and> n \<le> e \<and> weekday_flag c n)"
  by (simp add: baseActive_def in_range_ordered [OF assms] active_on_weekday)

lemma status_of_fields [simp]:
  "CalendarDayStatus.service_id (status_of c a k) = GTFSCalendar.service_id c"
  "calendar (status_of c a k) = Some c"
  "isActive (status_of c a k) = a"
  "exceptionType (status_of c a k) = k"
  "isException (status_of c a k) = (k \<noteq> None)"
  by (simp_all add: status_of_def)


section \<open>The two loops of the resolver\<close>

lemma find_first_match:
  "List.find (\<lambda>cd. GTFSCalendarDate.service_id cd = sid \<and> date cd = ds) xs = first_match xs sid ds"
  by (induction xs) (auto simp: first_match_def)

lemma first_match_Some:
  assumes "first_match xs sid ds = Some ex"
  shows "ex \<in> set xs \<and> GTFSCalendarDate.service_id ex = sid \<and> date ex = ds"
proof -
  from assms obtain rest
    where "filter (\<lambda>cd. GTFSCalendarDate.service_id cd = sid \<and> date cd = ds) xs = ex # rest"
    by (auto simp: first_match_def split: list.splits)
  then have "ex \<in> set (filter (\<lambda>cd. GTFSCalendarDate.service_id cd = sid \<and> date cd = ds) xs)"
    by simp
  then show ?thesis by simp
qed

text \<open>One pass of the first loop appends what the decision table says for the row.\<close>

lemma calendar_body_step:
  assumes "isDateInCalendarRange v c d = Inr b"
  shows "calendar_body v g d ds c st =
           Inr \<lparr>active = active st @ active_of (classify v g d ds c),
                excluded = excluded st @ excluded_of (classify v g d ds c)\<rparr>"
  using assms
  by (cases st)
     (auto simp: calendar_body_def find_first_match classify_def decision_table_def baseActive_def
        status_of_def Let_def split: option.splits ExceptionType.splits)

lemma calendar_loop:
  assumes "\<forall>c\<in>set cs. isDateInCalendarRange v c d \<noteq> Inl RangeError"
  shows "for_of cs (calendar_body v g d ds) st =
           Inr \<lparr>active = active st @ concat (map (\<lambda>c. active_of (classify v g d ds c)) cs),
                excluded = excluded st @ concat (map (\<lambda>c. excluded_of (classify v g d ds c)) cs)\<rparr>"
  using assms
proof (induction cs arbitrary: st)
  case Nil
  show ?case by simp
next
  case (Cons c cs)
  from Cons.prems obtain b where b: "isDateInCalendarRange v c d = Inr b"
    by (auto simp: no_throw_iff)
  from Cons.prems have rest: "\<forall>c\<in>set cs. isDateInCalendarRange v c d \<noteq> Inl RangeError"
    by simp
  show ?case
    by (simp add: calendar_body_step [OF b] Cons.IH [OF rest])
qed

lemma calendar_loop_throws:
  assumes "\<exists>c\<in>set cs. isDateInCalendarRange v c d = Inl RangeError"
  shows "for_of cs (calendar_body v g d ds) st = Inl RangeError"
  using assms
proof (induction cs arbitrary: st)
  case Nil
  then show ?case by simp
next
  case (Cons c cs)
  show ?case
  proof (cases "isDateInCalendarRange v c d")
    case (Inl e)
    then show ?thesis by (cases e) (simp add: calendar_body_def)
  next
    case (Inr b)
    with Cons.prems have "\<exists>c\<in>set cs. isDateInCalendarRange v c d = Inl RangeError" by auto
    then show ?thesis
      by (simp add: calendar_body_step [OF Inr] Cons.IH)
  qed
qed

text \<open>The second loop never throws; it appends one entry per added exception-only row.\<close>

lemma exception_loop:
  "for_of cds (exception_body ids ds) st =
     Inr (st\<lparr>active := active st @
            map added_only_status
              (filter (\<lambda>cd. date cd = ds \<and> GTFSCalendarDate.service_id cd \<notin> ids \<and>
                            exception_type cd = Added) cds)\<rparr>)"
  by (induction cds arbitrary: st) (auto simp: exception_body_def added_only_status_def)

lemma resolve_eq:
  assumes "formatGTFSDate d = Inr ds"
    and "\<forall>c\<in>set (calendars g). isDateInCalendarRange v c d \<noteq> Inl RangeError"
  shows "getCalendarStatusForDate v g d =
           Inr \<lparr>active = concat (map (\<lambda>c. active_of (classify v g d ds c)) (calendars g)) @
                         map added_only_status
                           (filter (\<lambda>cd. exception_type cd = Added) (exception_only g ds)),
                excluded = concat (map (\<lambda>c. excluded_of (classify v g d ds c)) (calendars g))\<rparr>"
  by (simp add: getCalendarStatusForDate_def assms(1) calendar_loop [OF assms(2)] exception_loop
        exception_only_def Let_def conj_commute conj_left_commute)

lemma resolve_throws_iff:
  assumes "formatGTFSDate d = Inr ds"
  shows "(getCalendarStatusForDate v g d = Inl RangeError) =
         (\<exists>c\<in>set (calendars g). isDateInCalendarRange v c d = Inl RangeError)"
proof (cases "\<exists>c\<in>set (calendars g). isDateInCalendarRange v c d = Inl RangeError")
  case True
  then show ?thesis
    by (simp add: getCalendarStatusForDate_def assms calendar_loop_throws)
next
  case False
  then have "\<forall>c\<in>set (calendars g). isDateInCalendarRange v c d \<noteq> Inl RangeError" by simp
  from resolve_eq [OF assms this] False show ?thesis by simp
qed

lemma resolve_returns:
  assumes "getCalendarStatusForDate v g d = Inr r" and "formatGTFSDate d = Inr ds"
  shows "\<forall>c\<in>set (calendars g). isDateInCalendarRange v c d \<noteq> Inl RangeError"
  using resolve_throws_iff [OF assms(2), of v g] assms(1) by auto

lemma active_of_classify:
  assumes "s \<in> set (active_of (classify v g d ds c))"
  shows "CalendarDayStatus.service_id s = GTFSCalendar.service_id c \<and> calendar s = Some c \<and> isActive s \<and>
         (s = status_of c True None \<and> baseActive v c d \<and>
            first_match (calendarDates g) (GTFSCalendar.service_id c) ds = None
          \<or> s = status_of c True (Some added) \<and>
            (\<exists>ex. first_match (calendarDates g) (GTFSCalendar.service_id c) ds = Some ex \<and>
                  exception_type ex = Added))"
  using assms
  by (auto simp: classify_def decision_table_def status_of_def
      split: option.splits ExceptionType.splits if_splits)

lemma excluded_of_classify:
  assumes "s \<in> set (excluded_of (classify v g d ds c))"
  shows "s = status_of c False (Some removed) \<and> baseActive v c d \<and>
         (\<exists>ex. first_match (calendarDates g) (GTFSCalendar.service_id c) ds = Some ex \<and>
               exception_type ex = Removed)"
  using assms
  by (auto simp: classify_def decision_table_def
      split: option.splits ExceptionType.splits if_splits)

lemma filter_rows_active:
  "filter (\<lambda>s. CalendarDayStatus.service_id s \<notin> set (map GTFSCalendar.service_id cs'))
     (concat (map (\<lambda>c. active_of (classify v g d ds c)) cs)) = []"
  if "set cs \<subseteq> set cs'"
  using that
  by (auto simp: filter_empty_conv dest!: active_of_classify)

lemma filter_rows_excluded:
  "filter (\<lambda>s. CalendarDayStatus.service_id s \<notin> set (map GTFSCalendar.service_id cs'))
     (concat (map (\<lambda>c. excluded_of (classify v g d ds c)) cs)) = []"
  if "set cs \<subseteq> set cs'"
  using that
  by (auto simp: filter_empty_conv dest!: excluded_of_classify)

lemma filter_exception_only:
  "filter (\<lambda>s. CalendarDayStatus.service_id s \<notin> calendar_ids g)
     (map added_only_status (filter P (exception_only g ds))) =
   map added_only_status (filter P (exception_only g ds))"
  by (auto simp: filter_id_conv exception_only_def added_only_status_def calendar_ids_def)


section \<open>The example feed on 2024-07-04\<close>

lemmas example_eval =
  example_feed_def example_WD_def example_WE_def example_exceptions_def
  parse_20240101 parse_20241231 isDateInCalendarRange_def
  classify_def first_match_def decision_table_def baseActive_def status_of_def
  isCalendarActiveOnDayOfWeek_def dayOfWeekKeys_def exception_only_def added_only_status_def

lemma example_ok:
  "\<forall>c\<in>set (calendars example_feed). isDateInCalendarRange v c (Day n) \<noteq> Inl RangeError"
  by (simp add: example_eval)

lemma example_resolved:
  "getCalendarStatusForDate v example_feed (Day 19908) = Inr example_result"
  by (subst resolve_eq [OF format_19908 example_ok]) (simp add: example_eval example_result_def)


section \<open>Results on the resolver\<close>

text \<open>
  C1, as the code has it. Whenever \<^verbatim>\<open>getCalendarStatusForDate\<close> returns, that is,
  whenever the date formats and the range test of no calendar row throws, its result is
  the decision table applied to every calendar row on its own, in the order of the rows,
  a row that appears twice being classified twice: with no matching exception the row
  gives an active entry with \<^verbatim>\<open>isException\<close> false exactly when it is active under the
  base rule; when the first matching exception in the order of the exception table is
  Added it gives an active entry with \<^verbatim>\<open>isException\<close> true and type added, whatever the
  base rule says; when it is Removed it gives an excluded entry exactly when the row is
  active under the base rule. The entries of exception-only services follow those of the
  rows in the active list. Active under the base rule means that the range test of the
  code holds and the flag of the weekday is set; for a row whose dates parse with start
  before or at end, it means that the day is in the closed range of the two dates and
  the flag of its weekday is set. Every valid day formats; the range test throws on no
  row with date-fns 3.x and 4.x, and with date-fns 2.x on no row whose dates parse with
  start before or at end.
\<close>

theorem resolve_decision_table:
  assumes "formatGTFSDate d = Inr ds"
    and "\<forall>c\<in>set (calendars g). isDateInCalendarRange v c d \<noteq> Inl RangeError"
  shows "getCalendarStatusForDate v g d =
           Inr \<lparr>active = concat (map (\<lambda>c. active_of (classify v g d ds c)) (calendars g)) @
                         map added_only_status
                           (filter (\<lambda>cd. exception_type cd = Added) (exception_only g ds)),
                excluded = concat (map (\<lambda>c. excluded_of (classify v g d ds c)) (calendars g))\<rparr>
         \<and> (\<forall>c s e n. d = Day n \<and> parseGTFSDate (start_date c) = Day s \<and>
               parseGTFSDate (end_date c) = Day e \<and> s \<le> e \<longrightarrow>
               baseActive v c d = (s \<le> n \<and> n \<le> e \<and> weekday_flag c n))
         \<and> (\<forall>n. \<exists>ds'. formatGTFSDate (Day n) = Inr ds')
         \<and> (\<forall>c d'. isDateInCalendarRange DateFns3 c d' \<noteq> Inl RangeError)
         \<and> (\<forall>c d'. range_ok c \<longrightarrow> isDateInCalendarRange v c d' \<noteq> Inl RangeError)"
proof -
  have "\<forall>c d'. isDateInCalendarRange DateFns3 c d' \<noteq> Inl RangeError"
    by (simp add: in_range_throws_iff)
  moreover have "\<forall>c d'. range_ok c \<longrightarrow> isDateInCalendarRange v c d' \<noteq> Inl RangeError"
    by (simp add: in_range_throws_iff)
  ultimately show ?thesis
    using resolve_eq [OF assms] baseActive_ordered format_Day by blast
qed

text \<open>
  C1 as stated fails on a row whose start date is after its end date. The row of
  \<open>reversed_only_feed\<close> runs from 2024-02-01 (day 19754) to 2024-01-01 (day 19723) and has
  no exception. On 2024-01-15 (day 19737), which is before the start date and so in no
  closed range from start to end, the resolver with date-fns 3.x gives the row a regular
  active entry; with date-fns 2.x it throws.
\<close>

theorem resolve_decision_table_counterexample:
  "parseGTFSDate (start_date reversed_row) = Day 19754 \<and>
   parseGTFSDate (end_date reversed_row) = Day 19723 \<and>
   (19737 :: int) < 19754 \<and>
   formatGTFSDate (Day 19737) = Inr ''20240115'' \<and>
   first_match (calendarDates reversed_only_feed) (GTFSCalendar.service_id reversed_row) ''20240115'' = None \<and>
   getCalendarStatusForDate DateFns3 reversed_only_feed (Day 19737) =
     Inr \<lparr>active = [status_of reversed_row True None], excluded = []\<rparr> \<and>
   getCalendarStatusForDate DateFns2 reversed_only_feed (Day 19737) = Inl RangeError"
proof -
  have dates: "parseGTFSDate (start_date reversed_row) = Day 19754"
    "parseGTFSDate (end_date reversed_row) = Day 19723"
    by (simp_all add: reversed_row_def parse_20240201 parse_20240101)
  have none: "first_match (calendarDates reversed_only_feed) (GTFSCalendar.service_id reversed_row)
      ''20240115'' = None"
    by (simp add: reversed_only_feed_def first_match_def)
  have ok: "\<forall>c\<in>set (calendars reversed_only_feed).
      isDateInCalendarRange DateFns3 c (Day 19737) \<noteq> Inl RangeError"
    by (simp add: in_range_throws_iff)
  have bad: "\<exists>c\<in>set (calendars reversed_only_feed).
      isDateInCalendarRange DateFns2 c (Day 19737) = Inl RangeError"
    by (simp add: in_range_throws_iff reversed_only_feed_def range_ok_def dates)
  have base: "baseActive DateFns3 reversed_row (Day 19737)"
    by (simp add: baseActive_def isDateInCalendarRange_def dates active_on_weekday weekday_flag_def)
       (simp add: reversed_row_def)
  have v3: "getCalendarStatusForDate DateFns3 reversed_only_feed (Day 19737) =
     Inr \<lparr>active = [status_of reversed_row True None], excluded = []\<rparr>"
  proof -
    have cls: "classify DateFns3 reversed_only_feed (Day 19737) ''20240115'' reversed_row =
        ActiveEntry (status_of reversed_row True None)"
      by (simp add: classify_def none decision_table_def base)
    have rows: "calendars reversed_only_feed = [reversed_row]"
      and only: "exception_only reversed_only_feed ''20240115'' = []"
      by (simp_all add: reversed_only_feed_def exception_only_def)
    show ?thesis
      by (subst resolve_eq [OF format_19737 ok]) (simp add: rows only cls)
  qed
  have v2: "getCalendarStatusForDate DateFns2 reversed_only_feed (Day 19737) = Inl RangeError"
    using bad by (simp add: resolve_throws_iff [OF format_19737])
  from dates none v3 v2 format_19737 show ?thesis by simp
qed

theorem resolve_decision_table_witness:
  "formatGTFSDate (Day 19908) = Inr ''20240704'' \<and>
   list_all (\<lambda>c. isDateInCalendarRange DateFns2 c (Day 19908) \<noteq> Inl RangeError)
     (calendars example_feed) \<and>
   getCalendarStatusForDate DateFns2 example_feed (Day 19908) =
     Inr \<lparr>active =
            [\<lparr>service_id = ''WE'', isActive = True, isException = True,
              exceptionType = Some added, calendar = Some example_WE\<rparr>,
             \<lparr>service_id = ''HOLIDAY'', isActive = True, isException = True,
              exceptionType = Some added, calendar = None\<rparr>],
          excluded =
            [\<lparr>service_id = ''WD'', isActive = False, isException = True,
              exceptionType = Some removed, calendar = Some example_WD\<rparr>,
             \<lparr>service_id = ''WD'', isActive = False, isException = True,
              exceptionType = Some removed, calendar = Some example_WD\<rparr>]\<rparr> \<and>
   baseActive DateFns2 example_WD (Day 19908) \<and> \<not> baseActive DateFns2 example_WE (Day 19908) \<and>
   formatGTFSDate (Day 19907) = Inr ''20240703'' \<and>
   getCalendarStatusForDate DateFns2 example_feed (Day 19907) =
     Inr \<lparr>active =
            [\<lparr>service_id = ''WD'', isActive = True, isException = False,
              exceptionType = None, calendar = Some example_WD\<rparr>,
             \<lparr>service_id = ''WD'', isActive = True, isException = False,
              exceptionType = None, calendar = Some example_WD\<rparr>],
          excluded = []\<rparr>"
proof -
  have thursday: "formatGTFSDate (Day 19908) = Inr ''20240704'' \<and>
    list_all (\<lambda>c. isDateInCalendarRange DateFns2 c (Day 19908) \<noteq> Inl RangeError)
      (calendars example_feed) \<and>
    getCalendarStatusForDate DateFns2 example_feed (Day 19908) =
     Inr \<lparr>active =
            [\<lparr>service_id = ''WE'', isActive = True, isException = True,
              exceptionType = Some added, calendar = Some example_WE\<rparr>,
             \<lparr>service_id = ''HOLIDAY'', isActive = True, isException = True,
              exceptionType = Some added, calendar = None\<rparr>],
          excluded =
            [\<lparr>service_id = ''WD'', isActive = False, isException = True,
              exceptionType = Some removed, calendar = Some example_WD\<rparr>,
             \<lparr>service_id = ''WD'', isActive = False, isException = True,
              exceptionType = Some removed, calendar = Some example_WD\<rparr>]\<rparr> \<and>
    baseActive DateFns2 example_WD (Day 19908) \<and> \<not> baseActive DateFns2 example_WE (Day 19908)"
    using resolve_decision_table [OF format_19908 example_ok [of DateFns2 19908]] format_19908
      example_ok [of DateFns2 19908]
    by (simp add: example_eval list_all_iff)
  have wednesday: "getCalendarStatusForDate DateFns2 example_feed (Day 19907) =
     Inr \<lparr>active =
            [\<lparr>service_id = ''WD'', isActive = True, isException = False,
              exceptionType = None, calendar = Some example_WD\<rparr>,
             \<lparr>service_id = ''WD'', isActive = True, isException = False,
              exceptionType = None, calendar = Some example_WD\<rparr>],
          excluded = []\<rparr>"
    using resolve_decision_table [OF format_19907 example_ok [of DateFns2 19907]]
    by (simp add: example_eval)
  from thursday wednesday format_19907 show ?thesis by simp
qed

text \<open>
  C2. When \<^verbatim>\<open>getCalendarStatusForDate\<close> returns, the entries of its active list whose
  \<^verbatim>\<open>service_id\<close> is in no calendar row are exactly one entry per Added exception row of
  an exception-only service on the date, in the order of the exception table, each
  active, with \<^verbatim>\<open>isException\<close> true, type added and no calendar back-reference; the
  excluded list has no entry for such a service. A Removed row of an exception-only
  service therefore produces nothing.
\<close>

theorem exception_only_services:
  assumes "getCalendarStatusForDate v g d = Inr r" and "formatGTFSDate d = Inr ds"
  shows "filter (\<lambda>s. CalendarDayStatus.service_id s \<notin> calendar_ids g) (active r) =
           map added_only_status (filter (\<lambda>cd. exception_type cd = Added) (exception_only g ds))
       \<and> filter (\<lambda>s. CalendarDayStatus.service_id s \<notin> calendar_ids g) (excluded r) = []"
proof -
  note ok = resolve_returns [OF assms]
  from resolve_eq [OF assms(2) ok] assms(1)
  have r: "r = \<lparr>active = concat (map (\<lambda>c. active_of (classify v g d ds c)) (calendars g)) @
                         map added_only_status
                           (filter (\<lambda>cd. exception_type cd = Added) (exception_only g ds)),
                excluded = concat (map (\<lambda>c. excluded_of (classify v g d ds c)) (calendars g))\<rparr>"
    by simp
  show ?thesis
    using filter_rows_active [of "calendars g" "calendars g" v g d ds]
      filter_rows_excluded [of "calendars g" "calendars g" v g d ds]
      filter_exception_only [of g "\<lambda>cd. exception_type cd = Added" ds]
    by (simp add: r calendar_ids_def)
qed

theorem exception_only_services_witness:
  "getCalendarStatusForDate DateFns3 example_feed (Day 19908) = Inr example_result \<and>
   formatGTFSDate (Day 19908) = Inr ''20240704'' \<and>
   filter (\<lambda>s. CalendarDayStatus.service_id s \<notin> calendar_ids example_feed) (active example_result) =
     [\<lparr>service_id = ''HOLIDAY'', isActive = True, isException = True,
       exceptionType = Some added, calendar = None\<rparr>] \<and>
   filter (\<lambda>s. CalendarDayStatus.service_id s \<notin> calendar_ids example_feed) (excluded example_result) = []"
  using exception_only_services [OF example_resolved [of DateFns3] format_19908]
    example_resolved [of DateFns3] format_19908
  by (simp add: example_eval)

text \<open>
  C7, as the code has it. When \<^verbatim>\<open>getCalendarStatusForDate\<close> returns, every entry of its
  excluded list is the removed entry of a calendar row that is active under the base
  rule on the date and for which the exception table holds a Removed exception with the
  row's \<^verbatim>\<open>service_id\<close> and the date; a row that is not active under the base rule has no
  entry in the excluded list. Active under the base rule means that the range test of
  the code holds and the flag of the weekday is set; for a row whose dates parse with
  start before or at end, it means that the day is in the closed range of the two dates
  and the flag of its weekday is set.
\<close>

theorem excluded_only_base_active:
  assumes "getCalendarStatusForDate v g d = Inr r" and "formatGTFSDate d = Inr ds"
  shows "(\<forall>s\<in>set (excluded r). \<exists>c\<in>set (calendars g).
            s = status_of c False (Some removed) \<and> baseActive v c d \<and>
            (\<exists>ex\<in>set (calendarDates g). GTFSCalendarDate.service_id ex = GTFSCalendar.service_id c \<and>
               date ex = ds \<and> exception_type ex = Removed))
       \<and> (\<forall>c. \<not> baseActive v c d \<longrightarrow> status_of c False (Some removed) \<notin> set (excluded r))
       \<and> (\<forall>c s e n. d = Day n \<and> parseGTFSDate (start_date c) = Day s \<and>
               parseGTFSDate (end_date c) = Day e \<and> s \<le> e \<longrightarrow>
               baseActive v c d = (s \<le> n \<and> n \<le> e \<and> weekday_flag c n))"
proof -
  note ok = resolve_returns [OF assms]
  from resolve_eq [OF assms(2) ok] assms(1)
  have ex: "excluded r = concat (map (\<lambda>c. excluded_of (classify v g d ds c)) (calendars g))"
    by auto
  have first: "\<exists>c\<in>set (calendars g).
            s = status_of c False (Some removed) \<and> baseActive v c d \<and>
            (\<exists>ex\<in>set (calendarDates g). GTFSCalendarDate.service_id ex = GTFSCalendar.service_id c \<and>
               date ex = ds \<and> exception_type ex = Removed)" if "s \<in> set (excluded r)" for s
  proof -
    from that ex obtain c where c: "c \<in> set (calendars g)"
      and s: "s \<in> set (excluded_of (classify v g d ds c))" by auto
    from excluded_of_classify [OF s] obtain e where
      "s = status_of c False (Some removed)" "baseActive v c d"
      "first_match (calendarDates g) (GTFSCalendar.service_id c) ds = Some e" "exception_type e = Removed"
      by blast
    with first_match_Some [of "calendarDates g" "GTFSCalendar.service_id c" ds e] c
    show ?thesis by blast
  qed
  have second: "status_of c False (Some removed) \<notin> set (excluded r)" if "\<not> baseActive v c d" for c
  proof
    assume "status_of c False (Some removed) \<in> set (excluded r)"
    from first [OF this] obtain c'
      where "status_of c False (Some removed) = status_of c' False (Some removed)"
        and "baseActive v c' d" by blast
    then have "c = c'" by (simp add: status_of_def)
    with \<open>baseActive v c' d\<close> that show False by simp
  qed
  have third: "\<forall>c s e n. d = Day n \<and> parseGTFSDate (start_date c) = Day s \<and>
               parseGTFSDate (end_date c) = Day e \<and> s \<le> e \<longrightarrow>
               baseActive v c d = (s \<le> n \<and> n \<le> e \<and> weekday_flag c n)"
    using baseActive_ordered by blast
  from first second third show ?thesis by blast
qed

text \<open>
  C7 as stated fails with date-fns 3.x and 4.x on a row whose start date is after its end
  date. The row of \<open>reversed_removed_feed\<close> runs from 2024-02-01 (day 19754) to
  2024-01-01 (day 19723) and has a Removed exception on 2024-01-15 (day 19737). That day
  is before the start date and so in no closed range from start to end, and the row has
  an entry in the excluded list.
\<close>

theorem excluded_only_base_active_counterexample:
  "parseGTFSDate (start_date reversed_row) = Day 19754 \<and>
   parseGTFSDate (end_date reversed_row) = Day 19723 \<and>
   (19737 :: int) < 19754 \<and>
   formatGTFSDate (Day 19737) = Inr ''20240115'' \<and>
   getCalendarStatusForDate DateFns3 reversed_removed_feed (Day 19737) =
     Inr \<lparr>active = [], excluded = [status_of reversed_row False (Some removed)]\<rparr>"
proof -
  have dates: "parseGTFSDate (start_date reversed_row) = Day 19754"
    "parseGTFSDate (end_date reversed_row) = Day 19723"
    by (simp_all add: reversed_row_def parse_20240201 parse_20240101)
  have found: "first_match (calendarDates reversed_removed_feed) (GTFSCalendar.service_id reversed_row)
      ''20240115'' =
      Some \<lparr>GTFSCalendarDate.service_id = ''R'', date = ''20240115'', exception_type = Removed\<rparr>"
    by (simp add: reversed_removed_feed_def first_match_def reversed_row_def)
  have ok: "\<forall>c\<in>set (calendars reversed_removed_feed).
      isDateInCalendarRange DateFns3 c (Day 19737) \<noteq> Inl RangeError"
    by (simp add: in_range_throws_iff)
  have base: "baseActive DateFns3 reversed_row (Day 19737)"
    by (simp add: baseActive_def isDateInCalendarRange_def dates active_on_weekday weekday_flag_def)
       (simp add: reversed_row_def)
  have v3: "getCalendarStatusForDate DateFns3 reversed_removed_feed (Day 19737) =
     Inr \<lparr>active = [], excluded = [status_of reversed_row False (Some removed)]\<rparr>"
  proof -
    have cls: "classify DateFns3 reversed_removed_feed (Day 19737) ''20240115'' reversed_row =
        ExcludedEntry (status_of reversed_row False (Some removed))"
      by (simp add: classify_def found decision_table_def base)
    have rows: "calendars reversed_removed_feed = [reversed_row]"
      and only: "exception_only reversed_removed_feed ''20240115'' = []"
      by (simp_all add: reversed_removed_feed_def exception_only_def reversed_row_def)
    show ?thesis
      by (subst resolve_eq [OF format_19737 ok]) (simp add: rows only cls)
  qed
  from dates v3 format_19737 show ?thesis by simp
qed

theorem excluded_only_base_active_witness:
  "getCalendarStatusForDate DateFns3 example_feed (Day 19908) = Inr example_result \<and>
   formatGTFSDate (Day 19908) = Inr ''20240704'' \<and>
   status_of example_WD False (Some removed) \<in> set (excluded example_result) \<and>
   (\<exists>c\<in>set (calendars example_feed).
      status_of example_WD False (Some removed) = status_of c False (Some removed) \<and>
      baseActive DateFns3 c (Day 19908) \<and>
      (\<exists>ex\<in>set (calendarDates example_feed).
         GTFSCalendarDate.service_id ex = GTFSCalendar.service_id c \<and>
         date ex = ''20240704'' \<and> exception_type ex = Removed)) \<and>
   \<not> baseActive DateFns3 example_WE (Day 19908) \<and>
   status_of example_WE False (Some removed) \<notin> set (excluded example_result)"
proof -
  have inactive: "\<not> baseActive DateFns3 example_WE (Day 19908)"
    by (simp add: example_eval)
  have member: "status_of example_WD False (Some removed) \<in> set (excluded example_result)"
    by (simp add: example_result_def status_of_def example_WD_def)
  from excluded_only_base_active [OF example_resolved [of DateFns3] format_19908] inactive member
    example_resolved [of DateFns3] format_19908
  show ?thesis by blast
qed

text \<open>One pass of the loop of \<^verbatim>\<open>getBaseCalendarsForDate\<close>.\<close>

lemma base_body_step:
  assumes "isDateInCalendarRange v c d = Inr b"
  shows "base_body v d c acc =
           Inr (acc @ (if baseActive v c d then [status_of c True None] else []))"
  using assms by (auto simp: base_body_def baseActive_def status_of_def)

lemma base_loop:
  assumes "\<forall>c\<in>set cs. isDateInCalendarRange v c d \<noteq> Inl RangeError"
  shows "for_of cs (base_body v d) acc =
           Inr (acc @ map (\<lambda>c. status_of c True None) (filter (\<lambda>c. baseActive v c d) cs))"
  using assms
proof (induction cs arbitrary: acc)
  case Nil
  show ?case by simp
next
  case (Cons c cs)
  from Cons.prems obtain b where b: "isDateInCalendarRange v c d = Inr b"
    by (auto simp: no_throw_iff)
  from Cons.prems have rest: "\<forall>c\<in>set cs. isDateInCalendarRange v c d \<noteq> Inl RangeError"
    by simp
  show ?case
    by (simp add: base_body_step [OF b] Cons.IH [OF rest])
qed

lemma base_loop_throws:
  assumes "\<exists>c\<in>set cs. isDateInCalendarRange v c d = Inl RangeError"
  shows "for_of cs (base_body v d) acc = Inl RangeError"
  using assms
proof (induction cs arbitrary: acc)
  case Nil
  then show ?case by simp
next
  case (Cons c cs)
  show ?case
  proof (cases "isDateInCalendarRange v c d")
    case (Inl e)
    then show ?thesis by (cases e) (simp add: base_body_def)
  next
    case (Inr b)
    with Cons.prems have "\<exists>c\<in>set cs. isDateInCalendarRange v c d = Inl RangeError" by auto
    then show ?thesis
      by (simp add: base_body_step [OF Inr] Cons.IH)
  qed
qed

lemma base_eq:
  assumes "\<forall>c\<in>set (calendars g). isDateInCalendarRange v c d \<noteq> Inl RangeError"
  shows "getBaseCalendarsForDate v g d =
           Inr (map (\<lambda>c. status_of c True None) (filter (\<lambda>c. baseActive v c d) (calendars g)))"
  by (simp add: getBaseCalendarsForDate_def base_loop [OF assms])

lemma base_throws_iff:
  "(getBaseCalendarsForDate v g d = Inl RangeError) =
   (\<exists>c\<in>set (calendars g). isDateInCalendarRange v c d = Inl RangeError)"
proof (cases "\<exists>c\<in>set (calendars g). isDateInCalendarRange v c d = Inl RangeError")
  case True
  then show ?thesis by (simp add: getBaseCalendarsForDate_def base_loop_throws)
next
  case False
  then have "\<forall>c\<in>set (calendars g). isDateInCalendarRange v c d \<noteq> Inl RangeError" by simp
  from base_eq [OF this] False show ?thesis by simp
qed

text \<open>
  C8, as the code has it. Whenever \<^verbatim>\<open>getBaseCalendarsForDate\<close> returns, that is,
  whenever the range test of no calendar row throws, it returns exactly the calendar
  rows that are active under the base rule on the date, in the order of the table, each
  as an active status with \<^verbatim>\<open>isException\<close> false and the row as back-reference. The result
  does not depend on the exception table: replacing it by any other leaves the result as
  it is, so a row active under the base rule is reported also on a date that carries a
  Removed exception for it. Active under the base rule means that the range test of the
  code holds and the flag of the weekday is set; for a row whose dates parse with start
  before or at end, it means that the day is in the closed range of the two dates and
  the flag of its weekday is set. The range test throws on no row with date-fns 3.x and
  4.x, and with date-fns 2.x on no row whose dates parse with start before or at end.
\<close>

theorem resolveBase_ignores_exceptions:
  assumes "\<forall>c\<in>set (calendars g). isDateInCalendarRange v c d \<noteq> Inl RangeError"
  shows "getBaseCalendarsForDate v g d =
           Inr (map (\<lambda>c. status_of c True None) (filter (\<lambda>c. baseActive v c d) (calendars g)))
       \<and> (\<forall>exceptions. getBaseCalendarsForDate v (g\<lparr>calendarDates := exceptions\<rparr>) d =
                        getBaseCalendarsForDate v g d)
       \<and> (\<forall>c s e n. d = Day n \<and> parseGTFSDate (start_date c) = Day s \<and>
               parseGTFSDate (end_date c) = Day e \<and> s \<le> e \<longrightarrow>
               baseActive v c d = (s \<le> n \<and> n \<le> e \<and> weekday_flag c n))
       \<and> (\<forall>c d'. isDateInCalendarRange DateFns3 c d' \<noteq> Inl RangeError)
       \<and> (\<forall>c d'. range_ok c \<longrightarrow> isDateInCalendarRange v c d' \<noteq> Inl RangeError)"
  using base_eq [OF assms] baseActive_ordered
  by (auto simp: getBaseCalendarsForDate_def in_range_throws_iff)

text \<open>
  C8 as stated fails on a row whose start date is after its end date. On 2024-01-15
  (day 19737), before the start date 2024-02-01 (day 19754) of the row of
  \<open>reversed_only_feed\<close> and so in no closed range from start to end,
  \<^verbatim>\<open>getBaseCalendarsForDate\<close> with date-fns 3.x returns the row; with date-fns 2.x it
  throws.
\<close>

theorem resolveBase_ignores_exceptions_counterexample:
  "parseGTFSDate (start_date reversed_row) = Day 19754 \<and>
   parseGTFSDate (end_date reversed_row) = Day 19723 \<and>
   (19737 :: int) < 19754 \<and>
   getBaseCalendarsForDate DateFns3 reversed_only_feed (Day 19737) =
     Inr [status_of reversed_row True None] \<and>
   getBaseCalendarsForDate DateFns2 reversed_only_feed (Day 19737) = Inl RangeError"
proof -
  have dates: "parseGTFSDate (start_date reversed_row) = Day 19754"
    "parseGTFSDate (end_date reversed_row) = Day 19723"
    by (simp_all add: reversed_row_def parse_20240201 parse_20240101)
  have ok: "\<forall>c\<in>set (calendars reversed_only_feed).
      isDateInCalendarRange DateFns3 c (Day 19737) \<noteq> Inl RangeError"
    by (simp add: in_range_throws_iff)
  have bad: "\<exists>c\<in>set (calendars reversed_only_feed).
      isDateInCalendarRange DateFns2 c (Day 19737) = Inl RangeError"
    by (simp add: in_range_throws_iff reversed_only_feed_def range_ok_def dates)
  have base: "baseActive DateFns3 reversed_row (Day 19737)"
    by (simp add: baseActive_def isDateInCalendarRange_def dates active_on_weekday weekday_flag_def)
       (simp add: reversed_row_def)
  have v3: "getBaseCalendarsForDate DateFns3 reversed_only_feed (Day 19737) =
     Inr [status_of reversed_row True None]"
    by (subst base_eq [OF ok]) (simp add: reversed_only_feed_def base)
  have v2: "getBaseCalendarsForDate DateFns2 reversed_only_feed (Day 19737) = Inl RangeError"
    using bad by (simp add: base_throws_iff)
  from dates v3 v2 show ?thesis by simp
qed

theorem resolveBase_ignores_exceptions_witness:
  "list_all (\<lambda>c. isDateInCalendarRange DateFns2 c (Day 19908) \<noteq> Inl RangeError)
     (calendars example_feed) \<and>
   first_match (calendarDates example_feed) ''WD'' ''20240704'' =
     Some \<lparr>GTFSCalendarDate.service_id = ''WD'', date = ''20240704'', exception_type = Removed\<rparr> \<and>
   getBaseCalendarsForDate DateFns2 example_feed (Day 19908) =
     Inr [status_of example_WD True None, status_of example_WD True None] \<and>
   getBaseCalendarsForDate DateFns2 (example_feed\<lparr>calendarDates := []\<rparr>) (Day 19908) =
     getBaseCalendarsForDate DateFns2 example_feed (Day 19908) \<and>
   baseActive DateFns2 example_WD (Day 19908) =
     (19723 \<le> (19908::int) \<and> (19908::int) \<le> 20088 \<and> weekday_flag example_WD 19908)"
proof -
  have wd: "parseGTFSDate (start_date example_WD) = Day 19723"
    "parseGTFSDate (end_date example_WD) = Day 20088"
    by (simp_all add: example_WD_def parse_20240101 parse_20241231)
  have rows: "filter (\<lambda>c. baseActive DateFns2 c (Day 19908)) (calendars example_feed) =
      [example_WD, example_WD]"
    by (simp add: example_eval)
  have removed: "first_match (calendarDates example_feed) ''WD'' ''20240704'' =
     Some \<lparr>GTFSCalendarDate.service_id = ''WD'', date = ''20240704'', exception_type = Removed\<rparr>"
    by (simp add: example_eval)
  note claim = resolveBase_ignores_exceptions [OF example_ok [of DateFns2 19908]]
  from claim have "\<forall>c s e n. Day 19908 = Day n \<and> parseGTFSDate (start_date c) = Day s \<and>
      parseGTFSDate (end_date c) = Day e \<and> s \<le> e \<longrightarrow>
      baseActive DateFns2 c (Day 19908) = (s \<le> n \<and> n \<le> e \<and> weekday_flag c n)"
    by blast
  from this [rule_format, of 19908 example_WD 19723 20088] wd
  have base: "baseActive DateFns2 example_WD (Day 19908) =
     (19723 \<le> (19908::int) \<and> (19908::int) \<le> 20088 \<and> weekday_flag example_WD 19908)"
    by simp
  from claim example_ok [of DateFns2 19908] base removed show ?thesis
    unfolding rows by (simp add: list_all_iff)
qed


section \<open>Rows with malformed or reversed dates\<close>

text \<open>With date-fns 3.x and 4.x an interval with an Invalid Date end contains no date.\<close>

lemma in_range_unparseable:
  assumes "parseGTFSDate (start_date c) = InvalidDate \<or> parseGTFSDate (end_date c) = InvalidDate"
  shows "isDateInCalendarRange DateFns3 c d = Inr False"
  using assms
  by (cases "parseGTFSDate (start_date c)"; cases "parseGTFSDate (end_date c)")
     (auto simp: isDateInCalendarRange_def)

text \<open>
  What the resolver gives for a row that is not active under the base rule: nothing in
  the excluded list, and in the active list only the entry of an Added exception.
\<close>

lemma inactive_row_entries:
  assumes "getCalendarStatusForDate v g d = Inr r" and "formatGTFSDate d = Inr ds"
    and "\<not> baseActive v c d" and "calendar s = Some c"
  shows "s \<notin> set (excluded r)"
    and "s \<in> set (active r) \<Longrightarrow>
           s = status_of c True (Some added) \<and>
           (\<exists>ex. first_match (calendarDates g) (GTFSCalendar.service_id c) ds = Some ex \<and>
                 exception_type ex = Added)"
proof -
  note ok = resolve_returns [OF assms(1,2)]
  from resolve_eq [OF assms(2) ok] assms(1)
  have act: "active r = concat (map (\<lambda>c. active_of (classify v g d ds c)) (calendars g)) @
                         map added_only_status
                           (filter (\<lambda>cd. exception_type cd = Added) (exception_only g ds))"
    and exc: "excluded r = concat (map (\<lambda>c. excluded_of (classify v g d ds c)) (calendars g))"
    by auto
  show "s \<notin> set (excluded r)"
  proof
    assume "s \<in> set (excluded r)"
    with exc obtain c' where "s \<in> set (excluded_of (classify v g d ds c'))" by auto
    from excluded_of_classify [OF this] have "calendar s = Some c'" "baseActive v c' d" by auto
    with assms(3,4) show False by simp
  qed
  show "s = status_of c True (Some added) \<and>
           (\<exists>ex. first_match (calendarDates g) (GTFSCalendar.service_id c) ds = Some ex \<and>
                 exception_type ex = Added)" if "s \<in> set (active r)"
  proof -
    from that act assms(4) obtain c' where s: "s \<in> set (active_of (classify v g d ds c'))"
      by (auto simp: added_only_status_def)
    from active_of_classify [OF s] assms(4) have "c' = c" by simp
    with active_of_classify [OF s] assms(3) show ?thesis by auto
  qed
qed

lemma inactive_row_base:
  assumes "getBaseCalendarsForDate v g d = Inr bs" and "\<not> baseActive v c d" and "calendar s = Some c"
  shows "s \<notin> set bs"
proof -
  from assms(1) base_throws_iff [of v g d]
  have "\<forall>c\<in>set (calendars g). isDateInCalendarRange v c d \<noteq> Inl RangeError" by auto
  from base_eq [OF this] assms(1)
  have "bs = map (\<lambda>c. status_of c True None) (filter (\<lambda>c. baseActive v c d) (calendars g))" by simp
  with assms(2,3) show ?thesis by auto
qed

text \<open>
  C3, as the code has it. For every data set and every valid target day:
  \<^verbatim>\<open>getCalendarStatusForDate\<close> and \<^verbatim>\<open>getBaseCalendarsForDate\<close> throw exactly when the
  library is date-fns 2.x and some calendar row has a date that does not parse or a
  start date after its end date; with date-fns 3.x and 4.x they always return. With
  date-fns 3.x and 4.x a row with a date that does not parse is in range on no date. A
  row that is not active under the base rule on the date has no entry in the excluded
  list and none in the result of \<^verbatim>\<open>getBaseCalendarsForDate\<close>; in the active list it has
  an entry only when its first matching exception is Added, and that entry is the added
  one.
\<close>

theorem resolve_failure_semantics:
  "((getCalendarStatusForDate v g (Day n) = Inl RangeError) =
      (v = DateFns2 \<and> (\<exists>c\<in>set (calendars g). \<not> range_ok c)))
   \<and> ((getBaseCalendarsForDate v g d = Inl RangeError) =
      (v = DateFns2 \<and> (\<exists>c\<in>set (calendars g). \<not> range_ok c)))
   \<and> (\<forall>c. parseGTFSDate (start_date c) = InvalidDate \<or> parseGTFSDate (end_date c) = InvalidDate \<longrightarrow>
          isDateInCalendarRange DateFns3 c d = Inr False)
   \<and> (\<forall>r ds c s. getCalendarStatusForDate v g (Day n) = Inr r \<and> formatGTFSDate (Day n) = Inr ds \<and>
          \<not> baseActive v c (Day n) \<and> calendar s = Some c \<longrightarrow>
          s \<notin> set (excluded r) \<and>
          (s \<in> set (active r) \<longrightarrow>
             s = status_of c True (Some added) \<and>
             (\<exists>ex. first_match (calendarDates g) (GTFSCalendar.service_id c) ds = Some ex \<and>
                   exception_type ex = Added)))
   \<and> (\<forall>bs c s. getBaseCalendarsForDate v g d = Inr bs \<and> \<not> baseActive v c d \<and> calendar s = Some c \<longrightarrow>
          s \<notin> set bs)"
proof -
  obtain ds where ds: "formatGTFSDate (Day n) = Inr ds" using format_Day by blast
  have a: "(getCalendarStatusForDate v g (Day n) = Inl RangeError) =
      (v = DateFns2 \<and> (\<exists>c\<in>set (calendars g). \<not> range_ok c))"
    by (auto simp: resolve_throws_iff [OF ds] in_range_throws_iff)
  have b: "(getBaseCalendarsForDate v g d = Inl RangeError) =
      (v = DateFns2 \<and> (\<exists>c\<in>set (calendars g). \<not> range_ok c))"
    by (auto simp: base_throws_iff in_range_throws_iff)
  have c: "\<forall>c. parseGTFSDate (start_date c) = InvalidDate \<or> parseGTFSDate (end_date c) = InvalidDate \<longrightarrow>
          isDateInCalendarRange DateFns3 c d = Inr False"
    using in_range_unparseable by blast
  have e: "\<forall>bs c s. getBaseCalendarsForDate v g d = Inr bs \<and> \<not> baseActive v c d \<and> calendar s = Some c \<longrightarrow>
          s \<notin> set bs"
    using inactive_row_base by blast
  have f: "\<forall>r ds c s. getCalendarStatusForDate v g (Day n) = Inr r \<and> formatGTFSDate (Day n) = Inr ds \<and>
          \<not> baseActive v c (Day n) \<and> calendar s = Some c \<longrightarrow>
          s \<notin> set (excluded r) \<and>
          (s \<in> set (active r) \<longrightarrow>
             s = status_of c True (Some added) \<and>
             (\<exists>ex. first_match (calendarDates g) (GTFSCalendar.service_id c) ds = Some ex \<and>
                   exception_type ex = Added))"
  proof (intro allI impI, elim conjE)
    fix r ds c and s :: CalendarDayStatus
    assume h: "getCalendarStatusForDate v g (Day n) = Inr r" "formatGTFSDate (Day n) = Inr ds"
      "\<not> baseActive v c (Day n)" "calendar s = Some c"
    show "s \<notin> set (excluded r) \<and>
          (s \<in> set (active r) \<longrightarrow>
             s = status_of c True (Some added) \<and>
             (\<exists>ex. first_match (calendarDates g) (GTFSCalendar.service_id c) ds = Some ex \<and>
                   exception_type ex = Added))"
      using inactive_row_entries(1) [OF h] inactive_row_entries(2) [OF h] by blast
  qed
  show ?thesis
    by (intro conjI) (rule a, rule b, rule c, rule f, rule e)
qed

text \<open>
  C3 as stated fails. The row of \<open>reversed_feed\<close> has its start date after its end date.
  On 2024-03-01 it carries an Added exception: with date-fns 3.x the resolver returns an
  active entry for the row, with date-fns 2.x it throws. On 2024-01-15, between the two
  dates, date-fns 3.x finds the row in range.
\<close>

theorem malformed_rows_counterexample:
  "getCalendarStatusForDate DateFns3 reversed_feed (Day 19783) =
     Inr \<lparr>active = [status_of reversed_row True (Some added)], excluded = []\<rparr> \<and>
   getCalendarStatusForDate DateFns2 reversed_feed (Day 19783) = Inl RangeError \<and>
   getBaseCalendarsForDate DateFns3 reversed_feed (Day 19737) = Inr [status_of reversed_row True None]"
proof -
  have ok: "\<forall>c\<in>set (calendars reversed_feed). isDateInCalendarRange DateFns3 c d \<noteq> Inl RangeError" for d
    by (simp add: in_range_throws_iff)
  have bad: "\<exists>c\<in>set (calendars reversed_feed). isDateInCalendarRange DateFns2 c d = Inl RangeError" for d
    by (simp add: in_range_throws_iff reversed_feed_def reversed_row_def range_ok_def
          parse_20240201 parse_20240101)
  have 1: "getCalendarStatusForDate DateFns3 reversed_feed (Day 19783) =
     Inr \<lparr>active = [status_of reversed_row True (Some added)], excluded = []\<rparr>"
    by (subst resolve_eq [OF format_19783 ok])
       (simp add: reversed_feed_def classify_def first_match_def decision_table_def exception_only_def
          reversed_row_def)
  have 2: "getCalendarStatusForDate DateFns2 reversed_feed (Day 19783) = Inl RangeError"
    using bad by (simp add: resolve_throws_iff [OF format_19783])
  have 3: "getBaseCalendarsForDate DateFns3 reversed_feed (Day 19737) = Inr [status_of reversed_row True None]"
    by (subst base_eq [OF ok])
       (simp add: reversed_feed_def reversed_row_def baseActive_def isDateInCalendarRange_def
          parse_20240201 parse_20240101 isCalendarActiveOnDayOfWeek_def dayOfWeekKeys_def)
  from 1 2 3 show ?thesis by blast
qed

theorem resolve_failure_semantics_witness:
  "getCalendarStatusForDate DateFns3 unparseable_feed (Day 19908) \<noteq> Inl RangeError \<and>
   getCalendarStatusForDate DateFns2 unparseable_feed (Day 19908) = Inl RangeError \<and>
   getBaseCalendarsForDate DateFns3 unparseable_feed (Day 19908) \<noteq> Inl RangeError \<and>
   parseGTFSDate (start_date unparseable_row) = InvalidDate \<and>
   isDateInCalendarRange DateFns3 unparseable_row (Day 19908) = Inr False \<and>
   \<not> baseActive DateFns3 unparseable_row (Day 19908) \<and>
   getCalendarStatusForDate DateFns3 unparseable_feed (Day 19908) =
     Inr \<lparr>active = [status_of unparseable_row True (Some added)], excluded = []\<rparr> \<and>
   (\<exists>ex. first_match (calendarDates unparseable_feed) ''U'' ''20240704'' = Some ex \<and>
         exception_type ex = Added) \<and>
   getBaseCalendarsForDate DateFns3 unparseable_feed (Day 19908) = Inr []"
proof -
  note v3 = resolve_failure_semantics [of DateFns3 unparseable_feed 19908 "Day 19908"]
  note v2 = resolve_failure_semantics [of DateFns2 unparseable_feed 19908 "Day 19908"]
  have start: "parseGTFSDate (start_date unparseable_row) = InvalidDate"
    by (simp add: unparseable_row_def parse_dashed)
  then have bad: "\<not> range_ok unparseable_row"
    by (simp add: range_ok_def)
  from v3 start have range: "isDateInCalendarRange DateFns3 unparseable_row (Day 19908) = Inr False"
    by blast
  then have inactive: "\<not> baseActive DateFns3 unparseable_row (Day 19908)"
    by (simp add: baseActive_def)
  from v3 have r3: "getCalendarStatusForDate DateFns3 unparseable_feed (Day 19908) \<noteq> Inl RangeError"
    and b3: "getBaseCalendarsForDate DateFns3 unparseable_feed (Day 19908) \<noteq> Inl RangeError"
    by simp_all
  from v2 bad have r2: "getCalendarStatusForDate DateFns2 unparseable_feed (Day 19908) = Inl RangeError"
    by (simp add: unparseable_feed_def)
  have ok: "\<forall>c\<in>set (calendars unparseable_feed). isDateInCalendarRange DateFns3 c d \<noteq> Inl RangeError" for d
    by (simp add: in_range_throws_iff)
  have res: "getCalendarStatusForDate DateFns3 unparseable_feed (Day 19908) =
     Inr \<lparr>active = [status_of unparseable_row True (Some added)], excluded = []\<rparr>"
    by (subst resolve_eq [OF format_19908 ok])
       (simp add: unparseable_feed_def classify_def first_match_def decision_table_def exception_only_def
          unparseable_row_def)
  have member: "status_of unparseable_row True (Some added) \<in>
      set (active \<lparr>active = [status_of unparseable_row True (Some added)], excluded = []\<rparr>)"
    by simp
  from v3 res format_19908 inactive member
  have "\<exists>ex. first_match (calendarDates unparseable_feed) (GTFSCalendar.service_id unparseable_row)
          ''20240704'' = Some ex \<and> exception_type ex = Added"
    by (metis status_of_fields(2))
  then have ex: "\<exists>ex. first_match (calendarDates unparseable_feed) ''U'' ''20240704'' = Some ex \<and>
         exception_type ex = Added"
    by (simp add: unparseable_row_def)
  have base: "getBaseCalendarsForDate DateFns3 unparseable_feed (Day 19908) = Inr []"
    by (subst base_eq [OF ok]) (simp add: unparseable_feed_def inactive)
  from r3 r2 b3 start range inactive res ex base show ?thesis by blast
qed


section \<open>The trip projector\<close>

text \<open>The route Map looked up at an id is the last route row with that id.\<close>

lemma new_Map_snoc: "new_Map (es @ [(k, v)]) = (new_Map es)(k \<mapsto> v)"
  by (simp add: new_Map_def)

lemma new_Map_routes:
  "new_Map (map (\<lambda>r. (GTFSRoute.route_id r, r)) rs) k = last_route rs k"
proof (induction rs rule: rev_induct)
  case Nil
  show ?case by (simp add: new_Map_def last_route_def)
next
  case (snoc r rs)
  then show ?case
    by (simp add: new_Map_snoc last_route_def Let_def)
qed

lemma last_route_None: "(last_route rs k = None) = (\<forall>ro\<in>set rs. GTFSRoute.route_id ro \<noteq> k)"
  by (auto simp: last_route_def Let_def filter_empty_conv)

lemma last_route_Some:
  assumes "last_route rs k = Some ro"
  shows "ro \<in> set rs \<and> GTFSRoute.route_id ro = k"
proof -
  let ?sharing = "filter (\<lambda>ro. GTFSRoute.route_id ro = k) rs"
  from assms have ne: "?sharing \<noteq> []" and ro: "ro = last ?sharing"
    by (auto simp: last_route_def Let_def split: if_splits)
  from ne have "last ?sharing \<in> set ?sharing" by (rule last_in_set)
  with ro show ?thesis by simp
qed

lemma last_route_shared:
  assumes "\<exists>ro\<in>set rs. GTFSRoute.route_id ro = k"
  shows "last_route rs k = Some (last (filter (\<lambda>ro. GTFSRoute.route_id ro = k) rs))"
  using assms by (auto simp: last_route_def Let_def filter_empty_conv)

lemma trips_eq:
  "getTripsForDate v g d =
     (case getCalendarStatusForDate v g d of
        Inl e \<Rightarrow> Inl e
      | Inr r \<Rightarrow>
          Inr (map (\<lambda>trip. GTFSTrip.extend trip \<lparr>route = last_route (routes g) (GTFSTrip.route_id trip)\<rparr>)
                (filter (\<lambda>trip. GTFSTrip.service_id trip \<in> set (map CalendarDayStatus.service_id (active r)))
                   (trips g))))"
  by (simp add: getTripsForDate_def getActiveServiceIds_def new_Map_routes split: sum.splits)

lemma truncate_extend: "GTFSTrip.truncate (GTFSTrip.extend t x) = t"
  by (cases t) (simp add: GTFSTrip.truncate_def GTFSTrip.extend_def)

lemma extend_fields [simp]:
  "GTFSTrip.service_id (GTFSTrip.extend t x) = GTFSTrip.service_id t"
  "GTFSTrip.route_id (GTFSTrip.extend t x) = GTFSTrip.route_id t"
  "route (GTFSTrip.extend t \<lparr>route = ro\<rparr>) = ro"
  by (cases t; simp add: GTFSTrip.extend_def)+

text \<open>
  C6. When the resolver returns for a date, \<^verbatim>\<open>getActiveServiceIds\<close> is the set of the
  service ids of its active list, and \<^verbatim>\<open>getTripsForDate\<close> returns: stripped of the
  attached route, its result is the trip table filtered to the trips whose \<^verbatim>\<open>service_id\<close>
  is in that set, in the order of the table; every returned trip has its \<^verbatim>\<open>service_id\<close>
  in the set; its route is absent exactly when no row of the route table shares its
  \<^verbatim>\<open>route_id\<close>, and a route that is present is a row of the route table with that id.
\<close>

theorem project_active_trips:
  assumes "getCalendarStatusForDate v g d = Inr r"
  shows "getActiveServiceIds v g d = Inr (set (map CalendarDayStatus.service_id (active r)))
       \<and> (\<exists>ts. getTripsForDate v g d = Inr ts
            \<and> map GTFSTrip.truncate ts =
                filter (\<lambda>trip. GTFSTrip.service_id trip \<in> set (map CalendarDayStatus.service_id (active r)))
                  (trips g)
            \<and> (\<forall>tw\<in>set ts.
                  GTFSTrip.service_id tw \<in> set (map CalendarDayStatus.service_id (active r))
                \<and> (route tw = None) = (\<forall>ro\<in>set (routes g). GTFSRoute.route_id ro \<noteq> GTFSTrip.route_id tw)
                \<and> (\<forall>ro. route tw = Some ro \<longrightarrow>
                      ro \<in> set (routes g) \<and> GTFSRoute.route_id ro = GTFSTrip.route_id tw)))"
proof -
  let ?ids = "set (map CalendarDayStatus.service_id (active r))"
  let ?ts = "map (\<lambda>trip. GTFSTrip.extend trip \<lparr>route = last_route (routes g) (GTFSTrip.route_id trip)\<rparr>)
                (filter (\<lambda>trip. GTFSTrip.service_id trip \<in> ?ids) (trips g))"
  have ids: "getActiveServiceIds v g d = Inr ?ids"
    by (simp add: getActiveServiceIds_def assms)
  have ts: "getTripsForDate v g d = Inr ?ts"
    by (simp add: trips_eq assms)
  have order: "map GTFSTrip.truncate ?ts = filter (\<lambda>trip. GTFSTrip.service_id trip \<in> ?ids) (trips g)"
    by (simp add: truncate_extend comp_def)
  have each: "\<forall>tw\<in>set ?ts.
        GTFSTrip.service_id tw \<in> ?ids
      \<and> (route tw = None) = (\<forall>ro\<in>set (routes g). GTFSRoute.route_id ro \<noteq> GTFSTrip.route_id tw)
      \<and> (\<forall>ro. route tw = Some ro \<longrightarrow>
            ro \<in> set (routes g) \<and> GTFSRoute.route_id ro = GTFSTrip.route_id tw)"
    using last_route_Some by (auto simp: last_route_None)
  from ids ts order each show ?thesis by blast
qed


text \<open>The resolver reads neither trips nor routes; the validator does not read routes.\<close>

lemma resolve_ignores_trips_routes:
  "getCalendarStatusForDate v (g\<lparr>trips := ts, routes := rs\<rparr>) d = getCalendarStatusForDate v g d"
proof -
  have "calendar_body v (g\<lparr>trips := ts, routes := rs\<rparr>) d ds = calendar_body v g d ds" for ds
    by (rule ext)+ (simp add: calendar_body_def split: sum.splits)
  then show ?thesis
    by (simp add: getCalendarStatusForDate_def cong: sum.case_cong)
qed

lemma validate_ignores_routes: "validateGTFSData (g\<lparr>routes := rs\<rparr>) = validateGTFSData g"
  by (simp add: validateGTFSData_def trips_check_def calendars_check_def calendarDates_check_def)

lemma example_trips_resolved:
  "getCalendarStatusForDate v example_trips_feed (Day 19908) = Inr example_result"
  by (simp add: example_trips_feed_def resolve_ignores_trips_routes example_resolved)

lemmas example_trips_eval =
  example_trips_feed_def example_feed_def example_result_def example_trip_def

lemma example_trips_projected:
  "getTripsForDate v example_trips_feed (Day 19908) =
     Inr [GTFSTrip.extend (example_trip ''T2'' ''WE'' ''R1'') \<lparr>route = Some example_R1b\<rparr>,
          GTFSTrip.extend (example_trip ''T3'' ''HOLIDAY'' ''R9'') \<lparr>route = None\<rparr>]"
  by (simp add: trips_eq example_trips_resolved)
     (simp add: example_trips_eval last_route_def example_R1_def example_R1b_def)

theorem project_active_trips_witness:
  "getCalendarStatusForDate DateFns3 example_trips_feed (Day 19908) = Inr example_result \<and>
   getActiveServiceIds DateFns3 example_trips_feed (Day 19908) = Inr {''WE'', ''HOLIDAY''} \<and>
   (\<exists>ts. getTripsForDate DateFns3 example_trips_feed (Day 19908) = Inr ts \<and>
         map GTFSTrip.truncate ts =
           [example_trip ''T2'' ''WE'' ''R1'', example_trip ''T3'' ''HOLIDAY'' ''R9''])"
proof -
  note claim = project_active_trips [OF example_trips_resolved [of DateFns3]]
  have ids: "set (map CalendarDayStatus.service_id (active example_result)) = {''WE'', ''HOLIDAY''}"
    by (simp add: example_result_def)
  have kept: "filter (\<lambda>trip. GTFSTrip.service_id trip \<in> {''WE'', ''HOLIDAY''}) (trips example_trips_feed) =
      [example_trip ''T2'' ''WE'' ''R1'', example_trip ''T3'' ''HOLIDAY'' ''R9'']"
    by (simp add: example_trips_eval)
  note claim' = claim [unfolded ids kept]
  from claim' have active_ids:
    "getActiveServiceIds DateFns3 example_trips_feed (Day 19908) = Inr {''WE'', ''HOLIDAY''}"
    by (rule conjunct1)
  from claim' have projected:
    "\<exists>ts. getTripsForDate DateFns3 example_trips_feed (Day 19908) = Inr ts \<and>
         map GTFSTrip.truncate ts =
           [example_trip ''T2'' ''WE'' ''R1'', example_trip ''T3'' ''HOLIDAY'' ''R9'']"
    by auto
  from example_trips_resolved [of DateFns3] active_ids projected show ?thesis
    by (intro conjI)
qed

text \<open>
  C10. A trip returned by \<^verbatim>\<open>getTripsForDate\<close> whose \<^verbatim>\<open>route_id\<close> is shared by rows of the
  route table carries the last of these rows, in the order of the table. The validator
  does not read the route table: its result is the same for any route table, so
  duplicate route ids raise no issue.
\<close>

theorem duplicate_routes_last_wins:
  assumes "getTripsForDate v g d = Inr ts" and "tw \<in> set ts"
    and "\<exists>ro\<in>set (routes g). GTFSRoute.route_id ro = GTFSTrip.route_id tw"
  shows "route tw = Some (last (filter (\<lambda>ro. GTFSRoute.route_id ro = GTFSTrip.route_id tw) (routes g)))
       \<and> (\<forall>rs. validateGTFSData (g\<lparr>routes := rs\<rparr>) = validateGTFSData g)"
proof -
  from assms(1,2) obtain trip where
    "tw = GTFSTrip.extend trip \<lparr>route = last_route (routes g) (GTFSTrip.route_id trip)\<rparr>"
    by (auto simp: trips_eq split: sum.splits)
  then have "route tw = last_route (routes g) (GTFSTrip.route_id tw)" by simp
  with last_route_shared [OF assms(3)] validate_ignores_routes show ?thesis by simp
qed

theorem duplicate_routes_last_wins_witness:
  "getTripsForDate DateFns3 example_trips_feed (Day 19908) =
     Inr [GTFSTrip.extend (example_trip ''T2'' ''WE'' ''R1'') \<lparr>route = Some example_R1b\<rparr>,
          GTFSTrip.extend (example_trip ''T3'' ''HOLIDAY'' ''R9'') \<lparr>route = None\<rparr>] \<and>
   filter (\<lambda>ro. GTFSRoute.route_id ro = ''R1'') (routes example_trips_feed) = [example_R1, example_R1b] \<and>
   route (GTFSTrip.extend (example_trip ''T2'' ''WE'' ''R1'') \<lparr>route = Some example_R1b\<rparr>) =
     Some (last [example_R1, example_R1b]) \<and>
   validateGTFSData (example_trips_feed\<lparr>routes := []\<rparr>) = validateGTFSData example_trips_feed"
proof -
  let ?tw = "GTFSTrip.extend (example_trip ''T2'' ''WE'' ''R1'') \<lparr>route = Some example_R1b\<rparr>"
  have shared: "filter (\<lambda>ro. GTFSRoute.route_id ro = ''R1'') (routes example_trips_feed) =
      [example_R1, example_R1b]"
    by (simp add: example_trips_feed_def example_R1_def example_R1b_def)
  have id: "GTFSTrip.route_id ?tw = ''R1''"
    by (simp add: example_trip_def)
  have member: "?tw \<in> set [?tw, GTFSTrip.extend (example_trip ''T3'' ''HOLIDAY'' ''R9'') \<lparr>route = None\<rparr>]"
    by simp
  have some: "\<exists>ro\<in>set (routes example_trips_feed). GTFSRoute.route_id ro = GTFSTrip.route_id ?tw"
    unfolding id by (simp add: example_trips_feed_def example_R1_def)
  from duplicate_routes_last_wins [OF example_trips_projected [of DateFns3] member some]
    example_trips_projected [of DateFns3] shared
  show ?thesis unfolding id by simp
qed


section \<open>Date range and available dates\<close>

text \<open>
  The two loops of \<^verbatim>\<open>getDateRange\<close> fold \<^verbatim>\<open>minDate\<close> over the start dates and then the
  exception dates, and \<^verbatim>\<open>maxDate\<close> over the end dates and then the exception dates. On
  valid dates the folds are the minimum and the maximum.
\<close>

lemma valid_days_all: "InvalidDate \<notin> set ds \<Longrightarrow> map Day (valid_days ds) = ds"
  by (induction ds rule: valid_days.induct) auto

lemma foldl_update_min_days:
  "foldl update_min (Some (Day m)) (map Day ns) = Some (Day (fold min ns m))"
  by (induction ns arbitrary: m) (auto simp: update_min_def min_def)

lemma foldl_update_max_days:
  "foldl update_max (Some (Day m)) (map Day ns) = Some (Day (fold max ns m))"
  by (induction ns arbitrary: m) (auto simp: update_max_def date_gt_def max_def)

lemma foldl_update_min:
  assumes "InvalidDate \<notin> set ds" and "ds \<noteq> []"
  shows "foldl update_min None ds = Some (Day (Min (set (valid_days ds))))"
proof -
  from assms obtain n ns where ds: "ds = map Day (n # ns)"
    by (metis valid_days_all list.map_disc_iff neq_Nil_conv)
  have "foldl update_min None ds = foldl update_min (Some (Day n)) (map Day ns)"
    by (simp add: ds update_min_def)
  also have "\<dots> = Some (Day (fold min ns n))" by (rule foldl_update_min_days)
  also have "fold min ns n = Min (set (n # ns))" by (rule Min.set_eq_fold [symmetric])
  also have "n # ns = valid_days ds"
    using valid_days_all [OF assms(1)] ds by (metis inj_on_def Date.inject(1) inj_on_map_eq_map)
  finally show ?thesis .
qed

lemma foldl_update_max:
  assumes "InvalidDate \<notin> set ds" and "ds \<noteq> []"
  shows "foldl update_max None ds = Some (Day (Max (set (valid_days ds))))"
proof -
  from assms obtain n ns where ds: "ds = map Day (n # ns)"
    by (metis valid_days_all list.map_disc_iff neq_Nil_conv)
  have "foldl update_max None ds = foldl update_max (Some (Day n)) (map Day ns)"
    by (simp add: ds update_max_def)
  also have "\<dots> = Some (Day (fold max ns n))" by (rule foldl_update_max_days)
  also have "fold max ns n = Max (set (n # ns))" by (rule Max.set_eq_fold [symmetric])
  also have "n # ns = valid_days ds"
    using valid_days_all [OF assms(1)] ds by (metis inj_on_def Date.inject(1) inj_on_map_eq_map)
  finally show ?thesis .
qed

lemma foldl_update_min_Some: "\<exists>m. foldl update_min (Some d) ds = Some m"
  by (induction ds arbitrary: d) (auto simp: update_min_def)

lemma foldl_update_max_Some: "\<exists>m. foldl update_max (Some d) ds = Some m"
  by (induction ds arbitrary: d) (auto simp: update_max_def)

lemma foldl_update_min_None: "(foldl update_min None ds = None) = (ds = [])"
  using foldl_update_min_Some by (cases ds) (auto simp: update_min_def)

lemma foldl_update_max_None: "(foldl update_max None ds = None) = (ds = [])"
  using foldl_update_max_Some by (cases ds) (auto simp: update_max_def)

lemma range_calendar_loop:
  "foldl range_calendar_body (mn, mx) cs =
     (foldl update_min mn (map (\<lambda>c. parseGTFSDate (start_date c)) cs),
      foldl update_max mx (map (\<lambda>c. parseGTFSDate (end_date c)) cs))"
  by (induction cs arbitrary: mn mx) (simp_all add: range_calendar_body_def Let_def)

lemma range_exception_loop:
  "foldl range_exception_body (mn, mx) cds =
     (foldl update_min mn (map (\<lambda>cd. parseGTFSDate (date cd)) cds),
      foldl update_max mx (map (\<lambda>cd. parseGTFSDate (date cd)) cds))"
  by (induction cds arbitrary: mn mx) (simp_all add: range_exception_body_def Let_def)

lemma range_loops:
  "foldl range_exception_body (foldl range_calendar_body (None, None) (calendars g)) (calendarDates g) =
     (foldl update_min None (start_dates g @ exception_dates g),
      foldl update_max None (end_dates g @ exception_dates g))"
  by (simp add: range_calendar_loop range_exception_loop start_dates_def end_dates_def
        exception_dates_def)

lemma getDateRange_None: "(getDateRange g = None) = (calendars g = [] \<and> calendarDates g = [])"
proof (cases "calendars g = [] \<and> calendarDates g = []")
  case True
  then show ?thesis by (simp add: getDateRange_def)
next
  case False
  then have "start_dates g @ exception_dates g \<noteq> []" "end_dates g @ exception_dates g \<noteq> []"
    by (auto simp: start_dates_def end_dates_def exception_dates_def)
  then obtain a b where "foldl update_min None (start_dates g @ exception_dates g) = Some a"
    "foldl update_max None (end_dates g @ exception_dates g) = Some b"
    using foldl_update_min_None foldl_update_max_None by (metis not_Some_eq)
  with False show ?thesis
    by (auto simp: getDateRange_def range_loops)
qed

lemma getDateRange_valid:
  assumes "InvalidDate \<notin> set (start_dates g @ end_dates g @ exception_dates g)"
    and "\<not> (calendars g = [] \<and> calendarDates g = [])"
  shows "getDateRange g =
           Some \<lparr>interval_start = Day (Min (set (valid_days (start_dates g @ exception_dates g)))),
                 interval_end = Day (Max (set (valid_days (end_dates g @ exception_dates g))))\<rparr>"
proof -
  from assms(2) have ne: "start_dates g @ exception_dates g \<noteq> []" "end_dates g @ exception_dates g \<noteq> []"
    by (auto simp: start_dates_def end_dates_def exception_dates_def)
  from assms(1) have v: "InvalidDate \<notin> set (start_dates g @ exception_dates g)"
    "InvalidDate \<notin> set (end_dates g @ exception_dates g)" by auto
  from assms(2) show ?thesis
    unfolding getDateRange_def range_loops foldl_update_min [OF v(1) ne(1)]
      foldl_update_max [OF v(2) ne(2)]
    by auto
qed


lemma parse_20240301: "parseGTFSDate ''20240301'' = Day 19783"
  by (simp add: parse_eval)

lemma parse_20240704: "parseGTFSDate ''20240704'' = Day 19908"
  by (simp add: parse_eval)

text \<open>
  When every row has its start date before or at its end date, the end dates do not
  lower the minimum and the start dates do not raise the maximum.
\<close>

lemma valid_days_append: "valid_days (xs @ ys) = valid_days xs @ valid_days ys"
  by (induction xs rule: valid_days.induct) simp_all

lemma valid_days_member: "(n \<in> set (valid_days ds)) = (Day n \<in> set ds)"
  by (induction ds rule: valid_days.induct) auto

lemma Min_absorb_dominated:
  fixes A B :: "int set"
  assumes "finite A" "finite B" "A \<noteq> {}" and "\<forall>b\<in>B. \<exists>a\<in>A. a \<le> b"
  shows "Min (A \<union> B) = Min A"
proof (rule antisym)
  show "Min (A \<union> B) \<le> Min A"
    using assms by (intro Min_antimono) auto
  have "Min (A \<union> B) \<in> A \<union> B" using assms by (intro Min_in) auto
  then show "Min A \<le> Min (A \<union> B)"
  proof
    assume "Min (A \<union> B) \<in> A"
    with Min_le [OF assms(1)] show ?thesis by blast
  next
    assume "Min (A \<union> B) \<in> B"
    with assms(4) obtain a where "a \<in> A" "a \<le> Min (A \<union> B)" by blast
    with assms(1) show ?thesis by (meson Min_le order_trans)
  qed
qed

lemma Max_absorb_dominated:
  fixes A B :: "int set"
  assumes "finite A" "finite B" "A \<noteq> {}" and "\<forall>b\<in>B. \<exists>a\<in>A. b \<le> a"
  shows "Max (A \<union> B) = Max A"
proof (rule antisym)
  show "Max A \<le> Max (A \<union> B)"
    using assms by (intro Max_mono) auto
  have "Max (A \<union> B) \<in> A \<union> B" using assms by (intro Max_in) auto
  then show "Max (A \<union> B) \<le> Max A"
  proof
    assume "Max (A \<union> B) \<in> A"
    with Max_ge [OF assms(1)] show ?thesis by blast
  next
    assume "Max (A \<union> B) \<in> B"
    with assms(4) obtain a where "a \<in> A" "Max (A \<union> B) \<le> a" by blast
    with assms(1) show ?thesis by (meson Max_ge order_trans)
  qed
qed

lemma range_ok_dates:
  assumes "range_ok c"
  obtains s e where "parseGTFSDate (start_date c) = Day s" "parseGTFSDate (end_date c) = Day e" "s \<le> e"
  using assms by (auto simp: range_ok_def split: Date.splits)

lemma ordered_rows_min:
  assumes "\<forall>c\<in>set (calendars g). range_ok c" and "\<not> (calendars g = [] \<and> calendarDates g = [])"
  shows "Min (set (valid_days (start_dates g @ exception_dates g))) =
         Min (set (valid_days (start_dates g @ end_dates g @ exception_dates g)))"
proof -
  let ?A = "set (valid_days (start_dates g @ exception_dates g))"
  let ?B = "set (valid_days (end_dates g))"
  have dominated: "\<forall>b\<in>?B. \<exists>a\<in>?A. a \<le> b"
  proof
    fix b assume "b \<in> ?B"
    then obtain c where c: "c \<in> set (calendars g)" and b: "parseGTFSDate (end_date c) = Day b"
      by (auto simp: valid_days_member end_dates_def)
    from assms(1) c have "range_ok c" by simp
    then obtain s e where "parseGTFSDate (start_date c) = Day s" "parseGTFSDate (end_date c) = Day e"
      "s \<le> e" by (rule range_ok_dates)
    moreover from this c have "Day s \<in> set (start_dates g)"
      by (force simp: start_dates_def)
    ultimately have "s \<in> ?A" "s \<le> b"
      using b by (auto simp: valid_days_member)
    then show "\<exists>a\<in>?A. a \<le> b" by blast
  qed
  show ?thesis
  proof (cases "?A = {}")
    case True
    with dominated have "?B = {}" by auto
    then show ?thesis by (simp add: valid_days_append)
  next
    case False
    have "set (valid_days (start_dates g @ end_dates g @ exception_dates g)) = ?A \<union> ?B"
      by (auto simp: valid_days_append)
    with Min_absorb_dominated [of ?A ?B, OF _ _ False dominated] show ?thesis by simp
  qed
qed

lemma ordered_rows_max:
  assumes "\<forall>c\<in>set (calendars g). range_ok c" and "\<not> (calendars g = [] \<and> calendarDates g = [])"
  shows "Max (set (valid_days (end_dates g @ exception_dates g))) =
         Max (set (valid_days (start_dates g @ end_dates g @ exception_dates g)))"
proof -
  let ?A = "set (valid_days (end_dates g @ exception_dates g))"
  let ?B = "set (valid_days (start_dates g))"
  have dominated: "\<forall>b\<in>?B. \<exists>a\<in>?A. b \<le> a"
  proof
    fix b assume "b \<in> ?B"
    then obtain c where c: "c \<in> set (calendars g)" and b: "parseGTFSDate (start_date c) = Day b"
      by (auto simp: valid_days_member start_dates_def)
    from assms(1) c have "range_ok c" by simp
    then obtain s e where "parseGTFSDate (start_date c) = Day s" "parseGTFSDate (end_date c) = Day e"
      "s \<le> e" by (rule range_ok_dates)
    moreover from this c have "Day e \<in> set (end_dates g)"
      by (force simp: end_dates_def)
    ultimately have "e \<in> ?A" "b \<le> e"
      using b by (auto simp: valid_days_member)
    then show "\<exists>a\<in>?A. b \<le> a" by blast
  qed
  show ?thesis
  proof (cases "?A = {}")
    case True
    with dominated have "?B = {}" by auto
    then show ?thesis by (simp add: valid_days_append)
  next
    case False
    have "set (valid_days (start_dates g @ end_dates g @ exception_dates g)) = ?A \<union> ?B"
      by (auto simp: valid_days_append)
    with Max_absorb_dominated [of ?A ?B, OF _ _ False dominated] show ?thesis by simp
  qed
qed

text \<open>
  C4, as the code has it. \<^verbatim>\<open>getDateRange\<close> returns null exactly when the calendar table
  and the exception table are both empty. Otherwise, when every date string of the data
  set parses, it returns the interval whose start is the minimum over the calendar start
  dates and the exception dates, and whose end is the maximum over the calendar end
  dates and the exception dates. When every calendar row has its start date before or
  at its end date, these are the minimum and the maximum over all start dates, end dates
  and exception dates.
\<close>

theorem date_range_min_max:
  "((getDateRange g = None) = (calendars g = [] \<and> calendarDates g = []))
   \<and> (InvalidDate \<notin> set (start_dates g @ end_dates g @ exception_dates g) \<and>
        \<not> (calendars g = [] \<and> calendarDates g = []) \<longrightarrow>
        getDateRange g =
          Some \<lparr>interval_start = Day (Min (set (valid_days (start_dates g @ exception_dates g)))),
                interval_end = Day (Max (set (valid_days (end_dates g @ exception_dates g))))\<rparr>
        \<and> ((\<forall>c\<in>set (calendars g). range_ok c) \<longrightarrow>
             Min (set (valid_days (start_dates g @ exception_dates g))) =
               Min (set (valid_days (start_dates g @ end_dates g @ exception_dates g)))
           \<and> Max (set (valid_days (end_dates g @ exception_dates g))) =
               Max (set (valid_days (start_dates g @ end_dates g @ exception_dates g)))))"
  using getDateRange_None getDateRange_valid ordered_rows_min ordered_rows_max by blast

text \<open>
  C4 as stated fails on a row whose start date is after its end date: the start of the
  range of \<open>reversed_feed\<close> is 2024-02-01 (day 19754), the row's start date, while the
  minimum over all its dates is the row's end date 2024-01-01 (day 19723). The loop
  compares start dates only with the minimum and end dates only with the maximum.
\<close>

theorem date_range_counterexample:
  "getDateRange reversed_feed = Some \<lparr>interval_start = Day 19754, interval_end = Day 19783\<rparr> \<and>
   Min (set (valid_days (start_dates reversed_feed @ end_dates reversed_feed @
                         exception_dates reversed_feed))) = 19723"
  by (simp add: getDateRange_def reversed_feed_def reversed_row_def range_calendar_body_def
        range_exception_body_def update_min_def update_max_def date_gt_def
        start_dates_def end_dates_def exception_dates_def
        parse_20240201 parse_20240101 parse_20240301)


theorem date_range_min_max_witness:
  "InvalidDate \<notin> set (start_dates example_feed @ end_dates example_feed @ exception_dates example_feed) \<and>
   list_all range_ok (calendars example_feed) \<and>
   getDateRange example_feed = Some \<lparr>interval_start = Day 19723, interval_end = Day 20088\<rparr> \<and>
   Min (set (valid_days (start_dates example_feed @ end_dates example_feed @
                         exception_dates example_feed))) = 19723 \<and>
   Max (set (valid_days (start_dates example_feed @ end_dates example_feed @
                         exception_dates example_feed))) = 20088 \<and>
   getDateRange empty_feed = None"
proof -
  have dates: "start_dates example_feed = [Day 19723, Day 19723, Day 19723]"
    "end_dates example_feed = [Day 20088, Day 20088, Day 20088]"
    "exception_dates example_feed = [Day 19908, Day 19908, Day 19908, Day 19908, Day 19908]"
    by (simp_all add: start_dates_def end_dates_def exception_dates_def example_feed_def
          example_WD_def example_WE_def example_exceptions_def
          parse_20240101 parse_20241231 parse_20240704)
  have valid: "InvalidDate \<notin> set (start_dates example_feed @ end_dates example_feed @
      exception_dates example_feed)"
    by (simp add: dates)
  have rows: "\<forall>c\<in>set (calendars example_feed). range_ok c"
    by (simp add: example_feed_def example_WD_def example_WE_def range_ok_def
          parse_20240101 parse_20241231)
  have some: "\<not> (calendars example_feed = [] \<and> calendarDates example_feed = [])"
    by (simp add: example_feed_def)
  have none: "calendars empty_feed = [] \<and> calendarDates empty_feed = []"
    by (simp add: empty_feed_def)
  from date_range_min_max [of example_feed] valid rows some
  have "getDateRange example_feed =
          Some \<lparr>interval_start = Day (Min (set (valid_days (start_dates example_feed @
                    exception_dates example_feed)))),
                interval_end = Day (Max (set (valid_days (end_dates example_feed @
                    exception_dates example_feed))))\<rparr>"
    and "Min (set (valid_days (start_dates example_feed @ exception_dates example_feed))) =
         Min (set (valid_days (start_dates example_feed @ end_dates example_feed @
                               exception_dates example_feed)))"
    and "Max (set (valid_days (end_dates example_feed @ exception_dates example_feed))) =
         Max (set (valid_days (start_dates example_feed @ end_dates example_feed @
                               exception_dates example_feed)))"
    by blast+
  moreover from date_range_min_max [of empty_feed] none have "getDateRange empty_feed = None"
    by blast
  ultimately show ?thesis
    using valid rows by (simp add: dates list_all_iff)
qed

lemma available_dates_eq:
  assumes "getDateRange g = Some \<lparr>interval_start = Day s, interval_end = Day e\<rparr>"
  shows "getAvailableDates v now g = Inr (map Day [max now s..e])"
  by (auto simp: getAvailableDates_def assms date_gt_def Let_def max_def)

text \<open>
  C9, as the code has it. \<^verbatim>\<open>getAvailableDates\<close> takes the data set only; today is the
  day the wall clock shows (\<open>now\<close>). When \<^verbatim>\<open>getDateRange\<close> is null the result is empty.
  When the range has valid ends, the result has one entry per day of the closed
  interval from the later of today and the start of the range to the end of the range,
  in order; it is empty when today is after the end of the range.
\<close>

theorem available_dates_from_clock:
  "(getDateRange g = None \<longrightarrow> getAvailableDates v now g = Inr [])
   \<and> (\<forall>s e. getDateRange g = Some \<lparr>interval_start = Day s, interval_end = Day e\<rparr> \<longrightarrow>
         getAvailableDates v now g = Inr (map Day [max now s..e])
       \<and> (e < now \<longrightarrow> getAvailableDates v now g = Inr []))"
proof -
  have "getAvailableDates v now g = Inr []" if "getDateRange g = None"
    using that by (simp add: getAvailableDates_def)
  moreover have "getAvailableDates v now g = Inr (map Day [max now s..e])
       \<and> (e < now \<longrightarrow> getAvailableDates v now g = Inr [])"
    if "getDateRange g = Some \<lparr>interval_start = Day s, interval_end = Day e\<rparr>" for s e
    using available_dates_eq [OF that] by simp
  ultimately show ?thesis by blast
qed

lemma january_range:
  "getDateRange january_feed = Some \<lparr>interval_start = Day 19723, interval_end = Day 19754\<rparr>"
  by (simp add: getDateRange_def january_feed_def january_row_def range_calendar_body_def
        update_min_def update_max_def parse_20240101 parse_20240201)

text \<open>
  C9 as stated fails: today is no parameter of \<^verbatim>\<open>getAvailableDates(gtfsData)\<close>. On one
  and the same data set the result follows the reading of the clock.
\<close>

theorem available_dates_counterexample:
  "getAvailableDates DateFns3 19753 january_feed = Inr [Day 19753, Day 19754] \<and>
   getAvailableDates DateFns3 19754 january_feed = Inr [Day 19754]"
  by (simp add: available_dates_eq [OF january_range] upto_rec1)

theorem available_dates_from_clock_witness:
  "getDateRange january_feed = Some \<lparr>interval_start = Day 19723, interval_end = Day 19754\<rparr> \<and>
   getAvailableDates DateFns2 19753 january_feed = Inr [Day 19753, Day 19754] \<and>
   getAvailableDates DateFns2 19720 january_feed = Inr (map Day [19723..19754]) \<and>
   getAvailableDates DateFns2 19800 january_feed = Inr [] \<and>
   getDateRange empty_feed = None \<and>
   getAvailableDates DateFns2 19753 empty_feed = Inr []"
proof -
  have none: "getDateRange empty_feed = None"
    by (simp add: getDateRange_def empty_feed_def)
  from available_dates_from_clock [of january_feed DateFns2 19753] january_range
  have a: "getAvailableDates DateFns2 19753 january_feed = Inr (map Day [max 19753 19723..19754])"
    by blast
  from available_dates_from_clock [of january_feed DateFns2 19720] january_range
  have b: "getAvailableDates DateFns2 19720 january_feed = Inr (map Day [max 19720 19723..19754])"
    by blast
  from available_dates_from_clock [of january_feed DateFns2 19800] january_range
  have c: "getAvailableDates DateFns2 19800 january_feed = Inr []"
    by auto
  from available_dates_from_clock [of empty_feed DateFns2 19753] none
  have d: "getAvailableDates DateFns2 19753 empty_feed = Inr []"
    by blast
  from a b c d january_range none show ?thesis
    by (simp add: upto_rec1)
qed


section \<open>The validator\<close>

text \<open>
  The counting loop of \<^verbatim>\<open>findDuplicates\<close>: after a prefix of the array the Map holds the
  values of the prefix in the order of their first appearance, each with the number of
  its occurrences. The second loop keeps the keys counted more than once.
\<close>

lemma set_first_seen [simp]: "set (first_seen xs) = set xs"
  by (induction xs) auto

lemma distinct_first_seen [simp]: "distinct (first_seen xs)"
  by (induction xs) (auto simp: distinct_removeAll)

lemma first_seen_snoc:
  "first_seen (xs @ [x]) = (if x \<in> set xs then first_seen xs else first_seen xs @ [x])"
  by (induction xs) auto

lemma map_get_tabulate:
  "map_get (map (\<lambda>k. (k, f k)) ks) x = (if x \<in> set ks then Some (f x) else None)"
  by (induction ks) auto

lemma map_set_absent:
  "x \<notin> set ks \<Longrightarrow> map_set (map (\<lambda>k. (k, f k)) ks) x v = map (\<lambda>k. (k, f k)) ks @ [(x, v)]"
  by (induction ks) auto

lemma map_set_present:
  "distinct ks \<Longrightarrow> x \<in> set ks \<Longrightarrow>
   map_set (map (\<lambda>k. (k, f k)) ks) x v = map (\<lambda>k. (k, if k = x then v else f k)) ks"
  by (induction ks) auto

lemma count_item_step:
  "count_item (map (\<lambda>k. (k, count_list xs k)) (first_seen xs)) x =
   map (\<lambda>k. (k, count_list (xs @ [x]) k)) (first_seen (xs @ [x]))"
proof (cases "x \<in> set xs")
  case True
  then show ?thesis
    by (simp add: count_item_def map_get_tabulate map_set_present first_seen_snoc)
next
  case False
  then show ?thesis
    by (auto simp: count_item_def map_get_tabulate map_set_absent first_seen_snoc count_list_0_iff)
qed

lemma count_item_loop:
  "foldl count_item (map (\<lambda>k. (k, count_list xs k)) (first_seen xs)) ys =
   map (\<lambda>k. (k, count_list (xs @ ys) k)) (first_seen (xs @ ys))"
proof (induction ys arbitrary: xs)
  case Nil
  show ?case by simp
next
  case (Cons y ys)
  from Cons.IH [of "xs @ [y]"] show ?case
    by (simp add: count_item_step)
qed

lemma findDuplicates_repeated: "findDuplicates arr = repeated arr"
  using count_item_loop [of "[]" arr]
  by (simp add: findDuplicates_def repeated_def filter_map comp_def)

lemma distinct_repeated: "distinct (repeated xs)"
  by (simp add: repeated_def)

lemma set_repeated: "set (repeated xs) = {k. 2 \<le> count_list xs k}"
proof -
  have "k \<in> set xs" if "2 \<le> count_list xs k" for k
    using that count_list_0_iff [of xs k] by (cases "k \<in> set xs") auto
  then show ?thesis by (auto simp: repeated_def)
qed

lemma repeated_empty: "(repeated xs = []) = distinct xs"
proof (induction xs)
  case Nil
  show ?case by (simp add: repeated_def)
next
  case (Cons x xs)
  have "(repeated ys = []) = (\<forall>k\<in>set ys. count_list ys k \<le> 1)" for ys :: "'a list"
    by (auto simp: repeated_def filter_empty_conv not_less)
  with Cons show ?case
    by (auto simp: count_list_0_iff)
qed


text \<open>
  The composite key of an exception row: without the separator in the date, the key
  determines \<^verbatim>\<open>service_id\<close> and date; without the separator in both, the description
  shows them.
\<close>

lemma split_plain: "sep \<notin> set s \<Longrightarrow> split sep s = [s]"
  by (induction s) auto

lemma split_at_first: "sep \<notin> set a \<Longrightarrow> split sep (a @ sep # b) = a # split sep b"
  by (induction a) auto

lemma describe_key_plain:
  assumes "CHR ''|'' \<notin> set sid" and "CHR ''|'' \<notin> set d"
  shows "describe_key (sid @ ''|'' @ d) = ''service_id=\"'' @ sid @ ''\", date=\"'' @ d @ ''\"''"
  using assms by (simp add: describe_key_def split_at_first split_plain element_def)

lemma exception_key_inject:
  assumes "CHR ''|'' \<notin> set (date a)" and "CHR ''|'' \<notin> set (date b)"
    and "exception_key a = exception_key b"
  shows "GTFSCalendarDate.service_id a = GTFSCalendarDate.service_id b \<and> date a = date b"
proof -
  have "split (CHR ''|'') (rev (exception_key a)) = rev (date a) # split (CHR ''|'') (rev (GTFSCalendarDate.service_id a))"
    using assms(1) by (simp add: exception_key_def split_at_first)
  moreover have "split (CHR ''|'') (rev (exception_key b)) = rev (date b) # split (CHR ''|'') (rev (GTFSCalendarDate.service_id b))"
    using assms(2) by (simp add: exception_key_def split_at_first)
  ultimately have d: "date a = date b" using assms(3) by simp
  with assms(3) show ?thesis by (simp add: exception_key_def)
qed

text \<open>
  Each of the three checks gives no issue when its keys are distinct and otherwise one
  issue, which lists the repeated keys once each in the order of first appearance; the
  result is valid exactly when there is no issue.
\<close>

lemma trips_check_eq:
  "trips_check g =
     (if distinct (map trip_id (trips g)) then []
      else [\<lparr>type = error, file_name = ''trips.txt'', field = ''trip_id'',
             message = ''Found '' @ decimal (length (repeated (map trip_id (trips g)))) @
                       '' duplicate trip_id value(s)'',
             duplicates = repeated (map trip_id (trips g))\<rparr>])"
  using repeated_empty [of "map trip_id (trips g)"]
  by (simp add: trips_check_def findDuplicates_repeated Let_def)

lemma calendars_check_eq:
  "calendars_check g =
     (if distinct (map GTFSCalendar.service_id (calendars g)) then []
      else [\<lparr>type = error, file_name = ''calendar.txt'', field = ''service_id'',
             message = ''Found '' @ decimal (length (repeated (map GTFSCalendar.service_id (calendars g)))) @
                       '' duplicate service_id value(s)'',
             duplicates = repeated (map GTFSCalendar.service_id (calendars g))\<rparr>])"
  using repeated_empty [of "map GTFSCalendar.service_id (calendars g)"]
  by (simp add: calendars_check_def findDuplicates_repeated Let_def)

lemma calendarDates_check_eq:
  "calendarDates_check g =
     (if distinct (map exception_key (calendarDates g)) then []
      else [\<lparr>type = error, file_name = ''calendar_dates.txt'', field = ''service_id + date'',
             message = ''Found '' @ decimal (length (repeated (map exception_key (calendarDates g)))) @
                       '' duplicate service_id + date combination(s)'',
             duplicates = map describe_key (repeated (map exception_key (calendarDates g)))\<rparr>])"
  using repeated_empty [of "map exception_key (calendarDates g)"]
  by (simp add: calendarDates_check_def findDuplicates_repeated Let_def exception_key_def [abs_def])

lemma validate_eq:
  "issues (validateGTFSData g) = trips_check g @ calendars_check g @ calendarDates_check g"
  "isValid (validateGTFSData g) = (issues (validateGTFSData g) = [])"
  by (simp_all add: validateGTFSData_def Let_def)

lemma exception_keys_distinct:
  assumes "\<forall>cd\<in>set cds. CHR ''|'' \<notin> set (date cd)"
  shows "distinct (map exception_key cds) =
         distinct (map (\<lambda>cd. (GTFSCalendarDate.service_id cd, date cd)) cds)"
proof -
  have "(exception_key a = exception_key b) =
        ((GTFSCalendarDate.service_id a, date a) = (GTFSCalendarDate.service_id b, date b))"
    if "a \<in> set cds" "b \<in> set cds" for a b
    using exception_key_inject [of a b] assms that by (auto simp: exception_key_def)
  then show ?thesis
    by (induction cds) (auto simp: image_iff)
qed

lemma removeAll_map_inj:
  assumes "inj_on f (insert x (set ys))"
  shows "removeAll (f x) (map f ys) = map f (removeAll x ys)"
  using assms by (induction ys) (auto simp: inj_on_def)

lemma first_seen_map:
  assumes "inj_on f (set xs)"
  shows "first_seen (map f xs) = map f (first_seen xs)"
  using assms
proof (induction xs)
  case Nil
  show ?case by simp
next
  case (Cons x xs)
  then have "inj_on f (set xs)" and "inj_on f (insert x (set (first_seen xs)))" by simp_all
  with Cons.IH removeAll_map_inj [of f x "first_seen xs"] show ?case by simp
qed

lemma count_list_map_inj:
  assumes "inj_on f (insert x (set xs))"
  shows "count_list (map f xs) (f x) = count_list xs x"
  using assms by (induction xs) (auto simp: inj_on_def)

lemma repeated_map:
  assumes "inj_on f (set xs)"
  shows "repeated (map f xs) = map f (repeated xs)"
proof -
  have "count_list (map f xs) (f x) = count_list xs x" if "x \<in> set xs" for x
    using count_list_map_inj [of f x xs] assms that by (simp add: insert_absorb)
  then have "filter (\<lambda>x. 1 < count_list (map f xs) (f x)) (first_seen xs) =
             filter (\<lambda>x. 1 < count_list xs x) (first_seen xs)"
    by (intro filter_cong) auto
  then show ?thesis
    by (simp add: repeated_def first_seen_map [OF assms] filter_map comp_def)
qed

lemma calendarDates_check_plain:
  assumes "\<forall>cd\<in>set (calendarDates g).
             CHR ''|'' \<notin> set (GTFSCalendarDate.service_id cd) \<and> CHR ''|'' \<notin> set (date cd)"
  shows "calendarDates_check g =
     (if distinct (map exception_pair (calendarDates g)) then []
      else [\<lparr>type = error, file_name = ''calendar_dates.txt'', field = ''service_id + date'',
             message = ''Found '' @
               decimal (length (repeated (map exception_pair (calendarDates g)))) @
               '' duplicate service_id + date combination(s)'',
             duplicates = map describe_pair (repeated (map exception_pair (calendarDates g)))\<rparr>])"
proof -
  let ?join = "\<lambda>p. fst p @ ''|'' @ snd p"
  let ?pairs = "map exception_pair (calendarDates g)"
  have keys: "map exception_key (calendarDates g) = map ?join ?pairs"
    by (simp add: exception_key_def exception_pair_def)
  have inj: "inj_on ?join (set ?pairs)"
  proof (rule inj_onI)
    fix p q assume "p \<in> set ?pairs" and "q \<in> set ?pairs" and eq: "?join p = ?join q"
    then obtain a b where a: "a \<in> set (calendarDates g)" "p = exception_pair a"
      and b: "b \<in> set (calendarDates g)" "q = exception_pair b" by auto
    from eq a b have "exception_key a = exception_key b"
      by (simp add: exception_key_def exception_pair_def)
    with assms a b exception_key_inject [of a b] show "p = q"
      by (simp add: exception_pair_def)
  qed
  have rep: "repeated (map exception_key (calendarDates g)) = map ?join (repeated ?pairs)"
    unfolding keys by (rule repeated_map [OF inj])
  have "describe_key (?join p) = describe_pair p" if "p \<in> set (repeated ?pairs)" for p
  proof -
    from that have "p \<in> set ?pairs" by (simp add: repeated_def)
    then obtain a where "a \<in> set (calendarDates g)" "p = exception_pair a" by auto
    with assms have "CHR ''|'' \<notin> set (fst p)" "CHR ''|'' \<notin> set (snd p)"
      by (simp_all add: exception_pair_def)
    then show ?thesis
      using describe_key_plain [of "fst p" "snd p"] by (simp add: describe_pair_def)
  qed
  then have shown: "map describe_key (map ?join (repeated ?pairs)) = map describe_pair (repeated ?pairs)"
    by simp
  have same: "distinct (map exception_key (calendarDates g)) = distinct ?pairs"
    using exception_keys_distinct [of "calendarDates g"] assms
    by (simp add: exception_pair_def [abs_def])
  show ?thesis
    unfolding calendarDates_check_eq same rep shown by simp
qed

text \<open>
  C5 on an exception table whose \<^verbatim>\<open>service_id\<close> contains the separator. The two repeated
  pairs of \<open>piped_feed\<close> are (\<^verbatim>\<open>A|B\<close>, 20240101) and (\<^verbatim>\<open>A|B\<close>, 20240102); the issue lists
  the same description twice, with \<^verbatim>\<open>service_id\<close> A and date B, and so names neither. The
  two rows of \<open>colliding_feed\<close> are different pairs with one composite key: the data set
  satisfies the constraint and is reported invalid.
\<close>

theorem validate_pipe_in_service_id:
  "validateGTFSData piped_feed =
     \<lparr>isValid = False,
      issues = [\<lparr>type = error, file_name = ''calendar_dates.txt'', field = ''service_id + date'',
                 message = ''Found 2 duplicate service_id + date combination(s)'',
                 duplicates = [''service_id=\"A\", date=\"B\"'', ''service_id=\"A\", date=\"B\"'']\<rparr>],
      stats = \<lparr>tripsChecked = 0, calendarsChecked = 0, calendarDatesChecked = 4\<rparr>\<rparr> \<and>
   distinct (map (\<lambda>cd. (GTFSCalendarDate.service_id cd, date cd)) (calendarDates colliding_feed)) \<and>
   isValid (validateGTFSData colliding_feed) = False"
  by code_simp

end
